theory Spec2Isabelle
  imports Complex_Main
begin

section \<open>Andrews-Kwon SPUR1 inference engine (ineq\_functions/andrews\_kwon.py)\<close>

text \<open>
  The numpy arrays of the source are lists: a vector is a list of reals, a matrix is the
  list of its rows. Floating-point numbers are idealised as reals, with one exception:
  the level \<open>1 - alpha\<close> and the target rank of the quantile in \<open>cvalue_SPUR1\<close> are
  rounded as doubles are, since the rounding decides which order statistics are read
  (and the constant \<open>iota\<close> is the double that the source writes as \<open>1e-6\<close>). The two
  places where numpy leaves the reals are written out: \<open>np.inf\<close> is the value \<open>PInf\<close>
  of the type \<open>ext\<close>, and a computation that numpy answers with NaN (the standard
  deviation of an empty sample, the logarithm of a sample size of zero) stops with
  \<open>NanResult\<close>. Overflow of a finite computation is not part of the model; where a
  property of the values depends on its absence, the theorem bounds the aggregates.
  Every Python exception is a constructor of \<open>error\<close>. A vector argument (a row of
  scaling factors, the \<open>An\<close> vector) is taken with the length its caller in
  \<open>cvalue_SPUR1\<close> and \<open>an_vec\<close> gives it, one entry per column or per replication;
  another length stops with \<open>ShapeError\<close>, also where numpy would broadcast a vector of
  a single entry.
\<close>

type_synonym vec = "real list"
type_synonym matrix = "real list list"
type_synonym index_matrix = "nat list list"

datatype error =
    ConfigError          \<comment> \<open>ValueError: bootstrap\_replications must be specified ...\<close>
  | TypeError            \<comment> \<open>np.zeros with None as a dimension\<close>
  | ReductionError       \<comment> \<open>ValueError: zero-size array to reduction operation\<close>
  | IndexError           \<comment> \<open>index out of bounds, or boolean mask of the wrong length\<close>
  | ShapeError           \<comment> \<open>ValueError: operands could not be broadcast together\<close>
  | QuantileRangeError   \<comment> \<open>ValueError: quantiles must be in the range [0, 1]\<close>
  | NanResult            \<comment> \<open>no exception in numpy: the result is NaN\<close>

datatype ext = Fin real | PInf

fun ext_add :: "ext \<Rightarrow> ext \<Rightarrow> ext" where
  "ext_add (Fin a) (Fin b) = Fin (a + b)"
| "ext_add _ _ = PInf"

fun ext_le :: "ext \<Rightarrow> ext \<Rightarrow> bool" where
  "ext_le _ PInf = True"
| "ext_le PInf (Fin b) = False"
| "ext_le (Fin a) (Fin b) = (a \<le> b)"

definition ext_max :: "ext \<Rightarrow> ext \<Rightarrow> ext" where
  "ext_max a b = (if ext_le a b then b else a)"

definition ext_min :: "ext \<Rightarrow> ext \<Rightarrow> ext" where
  "ext_min a b = (if ext_le a b then a else b)"

text \<open>\<open>np.max\<close> and \<open>np.min\<close> over one axis: an empty axis raises.\<close>

fun np_max :: "vec \<Rightarrow> error + real" where
  "np_max [] = Inl ReductionError"
| "np_max (x # xs) = Inr (fold max xs x)"

fun np_min :: "vec \<Rightarrow> error + real" where
  "np_min [] = Inl ReductionError"
| "np_min (x # xs) = Inr (fold min xs x)"

fun ext_np_max :: "ext list \<Rightarrow> error + ext" where
  "ext_np_max [] = Inl ReductionError"
| "ext_np_max (x # xs) = Inr (fold ext_max xs x)"

fun ext_np_min :: "ext list \<Rightarrow> error + ext" where
  "ext_np_min [] = Inl ReductionError"
| "ext_np_min (x # xs) = Inr (fold ext_min xs x)"

subsection \<open>Doubles\<close>

text \<open>
  Rounding to the nearest double, ties to even: a double has a significand of 53 bits,
  so in the binade \<open>2^e \<le> x < 2^(e+1)\<close> the doubles are the multiples of \<open>2^(e-52)\<close>.
  Overflow and subnormal numbers are left out; what is rounded below (the constant
  \<open>iota\<close>, the level \<open>1 - alpha\<close> and the target rank of the quantile) is far from
  both, and an \<open>alpha\<close> so small as to be subnormal leaves \<open>1 - alpha\<close> at 1 however
  it is rounded.
\<close>

definition rne :: "real \<Rightarrow> int" where
  "rne x =
     (let f = \<lfloor>x\<rfloor>
      in if x - of_int f < 1/2 then f
         else if 1/2 < x - of_int f then f + 1
         else if even f then f else f + 1)"

definition round_pos :: "real \<Rightarrow> real" where
  "round_pos x =
     (let e = \<lfloor>log 2 x\<rfloor>; u = 2 powr (of_int e - 52)
      in u * of_int (rne (x / u)))"

definition round_double :: "real \<Rightarrow> real" where
  "round_double x =
     (if x = 0 then 0 else if 0 < x then round_pos x else - round_pos (- x))"

subsection \<open>Sequencing\<close>

text \<open>Running a list of fallible computations stops at the first exception.\<close>

fun collect :: "(error + 'a) list \<Rightarrow> error + 'a list" where
  "collect [] = Inr []"
| "collect (Inl e # _) = Inl e"
| "collect (Inr x # rs) = (case collect rs of Inl e \<Rightarrow> Inl e | Inr xs \<Rightarrow> Inr (x # xs))"

subsection \<open>The random generator and the bootstrap index matrix\<close>

text \<open>
  \<open>np.random\<close> is a process-wide generator. Its state is threaded through every call;
  the two operations the source uses are parameters: \<open>seed\<close> is \<open>np.random.seed\<close>, and
  \<open>randint g n B m\<close> is \<open>np.random.randint(0, n, size=(B, m))\<close> from state \<open>g\<close>,
  returning the matrix and the next state. The state also records, in \<open>used\<close>, every
  index matrix a component resamples with, latest first.
\<close>

record 'g np_random =
  seed :: "int \<Rightarrow> 'g"
  randint :: "'g \<Rightarrow> nat \<Rightarrow> nat \<Rightarrow> nat \<Rightarrow> index_matrix \<times> 'g"

record 'g world =
  gen :: 'g
  used :: "index_matrix list"

text \<open>
  The block every bootstrap-based function starts with:
  \<^verbatim>\<open>
  if bootstrap_indices is None:
      if bootstrap_replications is None:
          raise ValueError(...)
      else:
          if rng_seed is not None:
              np.random.seed(rng_seed)
          bootstrap_indices = np.random.randint(0, n, size=(bootstrap_replications, n))
  \<close>
\<close>

definition bootstrap_draw ::
  "'g np_random \<Rightarrow> nat \<Rightarrow> nat option \<Rightarrow> int option \<Rightarrow> index_matrix option \<Rightarrow>
   'g world \<Rightarrow> (error + index_matrix) \<times> 'g world" where
  "bootstrap_draw rng n bootstrap_replications rng_seed bootstrap_indices w =
     (case bootstrap_indices of
        Some I \<Rightarrow> (Inr I, w\<lparr>used := I # used w\<rparr>)
      | None \<Rightarrow>
         (case bootstrap_replications of
            None \<Rightarrow> (Inl ConfigError, w)
          | Some B \<Rightarrow>
             (let g1 = (case rng_seed of Some s \<Rightarrow> seed rng s | None \<Rightarrow> gen w);
                  d = randint rng g1 n B n
              in (Inr (fst d), \<lparr>gen = snd d, used = fst d # used w\<rparr>))))"

subsection \<open>Array helpers\<close>

definition ncols :: "matrix \<Rightarrow> nat" where
  "ncols X = (case X of [] \<Rightarrow> 0 | r # _ \<Rightarrow> length r)"

definition col :: "matrix \<Rightarrow> nat \<Rightarrow> vec" where
  "col M j = map (\<lambda>r. r ! j) M"

text \<open>\<open>X_data[row, :]\<close> for one row of the index matrix: an index beyond the last row raises.\<close>

definition take_rows :: "matrix \<Rightarrow> nat list \<Rightarrow> error + matrix" where
  "take_rows X row =
     (if list_all (\<lambda>i. i < length X) row then Inr (map (\<lambda>i. X ! i) row) else Inl IndexError)"

text \<open>
  \<open>m_hat\<close> lives in moment.py, which is not among the sources at hand; it is the
  parameter \<open>mh\<close>, from a matrix to one aggregate per column. An aggregate that has
  not one entry per column of \<open>X_data\<close> cannot be combined with the other arrays.
\<close>

definition m_hat0_of :: "(matrix \<Rightarrow> vec) \<Rightarrow> matrix \<Rightarrow> error + vec" where
  "m_hat0_of mh X =
     (if length (mh X) = ncols X then Inr (mh X) else Inl ShapeError)"

text \<open>\<open>m_hat(X_data[bootstrap_indices, :], axis=1)\<close>: the aggregate of every resample.\<close>

definition mhat_star :: "(matrix \<Rightarrow> vec) \<Rightarrow> matrix \<Rightarrow> index_matrix \<Rightarrow> error + matrix" where
  "mhat_star mh X I =
     (case collect (map (take_rows X) I) of
        Inl e \<Rightarrow> Inl e
      | Inr Xs \<Rightarrow>
         (if list_all (\<lambda>Y. length (mh Y) = ncols X) Xs then Inr (map mh Xs)
          else Inl ShapeError))"

definition mean :: "vec \<Rightarrow> real" where
  "mean xs = sum_list xs / real (length xs)"

text \<open>
  \<open>np.std\<close> of one column (population standard deviation); NaN on an empty column.
  The deviation is exact here; numpy rounds the mean and the squares, so that the
  deviation it returns for identical values need not be 0. The runs below use values
  for which the two agree (small integers), and the theorems on \<open>std_b_vec\<close> use of
  the deviation only that it is a number.
\<close>

definition pop_std :: "vec \<Rightarrow> real" where
  "pop_std xs = sqrt (mean (map (\<lambda>x. (x - mean xs)\<^sup>2) xs))"

definition np_std :: "vec \<Rightarrow> error + real" where
  "np_std xs = (if xs = [] then Inl NanResult else Inr (pop_std xs))"

text \<open>\<open>iota = 1e-6\<close>: the double nearest to the decimal.\<close>

definition iota :: real where
  "iota = round_double (1 / 1000000)"

text \<open>\<open>np.std(v, axis=0).clip(min=iota)\<close> for a matrix \<open>v\<close> with \<open>k\<close> columns.\<close>

definition std_floor :: "nat \<Rightarrow> matrix \<Rightarrow> error + vec" where
  "std_floor k v =
     collect (map (\<lambda>j. case np_std (col v j) of Inl e \<Rightarrow> Inl e | Inr s \<Rightarrow> Inr (max s iota))
                  [0..<k])"

subsection \<open>std\_b\_vec\<close>

definition std_b_rows :: "(matrix \<Rightarrow> vec) \<Rightarrow> matrix \<Rightarrow> index_matrix \<Rightarrow> error + matrix" where
  "std_b_rows mh X_data I =
     (let n = length X_data in
      case mhat_star mh X_data I of
        Inl e \<Rightarrow> Inl e
      | Inr mhat_star_vec \<Rightarrow>
         (let mhat_star_clip = map (map (\<lambda>x. min x 0)) mhat_star_vec in
          if ncols X_data = 0 then Inl ReductionError
          else
          case collect (map np_min mhat_star_clip) of
            Inl e \<Rightarrow> Inl e
          | Inr mn_star_vec \<Rightarrow>
             (let k = ncols X_data;
                  vec_1 = map2 (\<lambda>r mn. map (\<lambda>x. sqrt (real n) * (x - mn)) r)
                            mhat_star_vec mn_star_vec;
                  vec_2 = map (map (\<lambda>x. sqrt (real n) * x)) mhat_star_vec;
                  vec_3 = map2 (\<lambda>r mn. map (\<lambda>x. sqrt (real n) * (mn - x)) r)
                            mhat_star_clip mn_star_vec
              in case std_floor k vec_1 of
                   Inl e \<Rightarrow> Inl e
                 | Inr s1 \<Rightarrow>
                    (case std_floor k vec_2 of
                       Inl e \<Rightarrow> Inl e
                     | Inr s2 \<Rightarrow>
                        (case std_floor k vec_3 of
                           Inl e \<Rightarrow> Inl e
                         | Inr s3 \<Rightarrow> Inr [s1, s2, s3])))))"

definition std_b_vec ::
  "'g np_random \<Rightarrow> (matrix \<Rightarrow> vec) \<Rightarrow> matrix \<Rightarrow> nat option \<Rightarrow> int option \<Rightarrow>
   index_matrix option \<Rightarrow> 'g world \<Rightarrow> (error + matrix) \<times> 'g world" where
  "std_b_vec rng mh X_data bootstrap_replications rng_seed bootstrap_indices w =
     (case bootstrap_draw rng (length X_data) bootstrap_replications rng_seed
             bootstrap_indices w of
        (Inl e, w1) \<Rightarrow> (Inl e, w1)
      | (Inr I, w1) \<Rightarrow> (std_b_rows mh X_data I, w1))"

subsection \<open>tn\_star\<close>

text \<open>
  \<open>a / d > 1\<close> in floating point, for finite \<open>a\<close> and \<open>d\<close>: a division by zero gives
  \<open>+inf\<close> (for \<open>a > 0\<close>), \<open>-inf\<close> or NaN, and only \<open>+inf\<close> exceeds 1.
\<close>

definition gt_one :: "real \<Rightarrow> real \<Rightarrow> bool" where
  "gt_one a d = (if d = 0 then 0 < a else 1 < a / d)"

definition tn_star_rows ::
  "(matrix \<Rightarrow> vec) \<Rightarrow> matrix \<Rightarrow> vec \<Rightarrow> real \<Rightarrow> index_matrix \<Rightarrow> error + ext list list" where
  "tn_star_rows mh X_data std_b1 kappa_n I =
     (let n = length X_data in
      case m_hat0_of mh X_data of
        Inl e \<Rightarrow> Inl e
      | Inr m_hat0 \<Rightarrow>
         (let r_hat_vec = map (\<lambda>m. -1 * min m 0) m_hat0 in
          case np_max r_hat_vec of
            Inl e \<Rightarrow> Inl e
          | Inr r_hat \<Rightarrow>
             if length std_b1 \<noteq> length m_hat0 then Inl ShapeError
             else
              (let phi_n = map2 (\<lambda>m s. if gt_one (sqrt (real n) * (m + r_hat)) (s * kappa_n)
                                         then PInf else Fin 0) m_hat0 std_b1
               in case mhat_star mh X_data I of
                    Inl e \<Rightarrow> Inl e
                  | Inr ms \<Rightarrow>
                     Inr (map (\<lambda>r. map (\<lambda>j. ext_add (Fin (sqrt (real n) * (r ! j - m_hat0 ! j)))
                                                      (phi_n ! j))
                                        [0..<length m_hat0]) ms))))"

definition tn_star ::
  "'g np_random \<Rightarrow> (matrix \<Rightarrow> vec) \<Rightarrow> matrix \<Rightarrow> vec \<Rightarrow> real \<Rightarrow> nat option \<Rightarrow> int option \<Rightarrow>
   index_matrix option \<Rightarrow> 'g world \<Rightarrow> (error + ext list list) \<times> 'g world" where
  "tn_star rng mh X_data std_b1 kappa_n bootstrap_replications rng_seed bootstrap_indices w =
     (case bootstrap_draw rng (length X_data) bootstrap_replications rng_seed
             bootstrap_indices w of
        (Inl e, w1) \<Rightarrow> (Inl e, w1)
      | (Inr I, w1) \<Rightarrow> (tn_star_rows mh X_data std_b1 kappa_n I, w1))"

subsection \<open>an\_star\<close>

text \<open>
  \<open>r >= r0 - a / d\<close> in floating point, for finite operands: with \<open>d = 0\<close> the quotient
  is \<open>+inf\<close> (for \<open>a > 0\<close>, and the test holds), \<open>-inf\<close> or NaN (and it fails).
\<close>

definition ge_sub_quot :: "real \<Rightarrow> real \<Rightarrow> real \<Rightarrow> real \<Rightarrow> bool" where
  "ge_sub_quot r r0 a d = (if d = 0 then 0 < a else r0 - a / d \<le> r)"

text \<open>
  The loop over the near-binding indices:
  \<^verbatim>\<open>
  for i, j in enumerate(hat_j_r):
      hat_bnew = hat_b
      hat_bnew[j] = phi_n[j]
      aux_vec2[:, i] = np.max(hat_bnew + hat_hi_star, axis=1)
  \<close>
  \<open>hat_bnew = hat_b\<close> binds a second name to the same array, so the assignment to
  \<open>hat_bnew[j]\<close> writes into \<open>hat_b\<close>, and the next iteration starts from the array
  as this one left it. The loop passes the array on; it returns the columns of
  \<open>aux_vec2\<close>.
\<close>

fun near_binding_loop ::
  "ext list \<Rightarrow> ext list \<Rightarrow> matrix \<Rightarrow> nat list \<Rightarrow> (error + ext list) list" where
  "near_binding_loop hat_b phi_n hat_hi_star [] = []"
| "near_binding_loop hat_b phi_n hat_hi_star (j # js) =
     (let hat_bnew = hat_b[j := phi_n ! j]
      in collect (map (\<lambda>row. ext_np_max (map2 ext_add hat_bnew (map Fin row))) hat_hi_star)
         # near_binding_loop hat_bnew phi_n hat_hi_star js)"

text \<open>\<open>np.min(a, axis=1)\<close> for a matrix with \<open>B\<close> rows, given as the list of its columns.\<close>

definition min_over_columns :: "nat \<Rightarrow> ext list list \<Rightarrow> error + ext list" where
  "min_over_columns B cols =
     (if cols = [] then Inl ReductionError
      else collect (map (\<lambda>b. ext_np_min (map (\<lambda>c. c ! b) cols)) [0..<B]))"

definition r_hat_vec_of :: "vec \<Rightarrow> vec" where
  "r_hat_vec_of m_hat0 = map (\<lambda>m. -1 * min m 0) m_hat0"

definition hat_j_r_of :: "nat \<Rightarrow> vec \<Rightarrow> real \<Rightarrow> vec \<Rightarrow> real \<Rightarrow> nat list" where
  "hat_j_r_of n r_hat_vec r_hat0 std_b3 kappa_n =
     filter (\<lambda>j. ge_sub_quot (r_hat_vec ! j) r_hat0 (std_b3 ! j * kappa_n) (sqrt (real n)))
            [0..<length r_hat_vec]"

definition hat_b_of :: "nat \<Rightarrow> vec \<Rightarrow> real \<Rightarrow> vec \<Rightarrow> real \<Rightarrow> ext list" where
  "hat_b_of n r_hat_vec hat_r_inf std_b3 kappa_n =
     map2 (\<lambda>r s. Fin (sqrt (real n) * (r - hat_r_inf) - s * kappa_n)) r_hat_vec std_b3"

definition phi_n_of :: "nat \<Rightarrow> vec \<Rightarrow> real \<Rightarrow> vec \<Rightarrow> real \<Rightarrow> ext list" where
  "phi_n_of n r_hat_vec hat_r_inf std_b3 kappa_n =
     map2 (\<lambda>r s. if gt_one (sqrt (real n) * (r - hat_r_inf)) (s * kappa_n) then PInf else Fin 0)
          r_hat_vec std_b3"

definition hat_hi_star_of :: "nat \<Rightarrow> vec \<Rightarrow> vec \<Rightarrow> real \<Rightarrow> matrix \<Rightarrow> matrix" where
  "hat_hi_star_of n m_hat0 std_b2 kappa_n ms =
     map (\<lambda>r. map (\<lambda>j.
               (let vstar = sqrt (real n) * (r ! j - m_hat0 ! j);
                    pm = (if 0 \<le> vstar then -1 else 1)
                in (-1 * min (sqrt (real n) * m_hat0 ! j + pm * std_b2 ! j * kappa_n + vstar) 0)
                   - (-1 * min (sqrt (real n) * m_hat0 ! j + pm * std_b2 ! j * kappa_n) 0)))
             [0..<length m_hat0]) ms"

definition an_star_rows ::
  "(matrix \<Rightarrow> vec) \<Rightarrow> matrix \<Rightarrow> vec \<Rightarrow> vec \<Rightarrow> real \<Rightarrow> real \<Rightarrow> index_matrix \<Rightarrow> error + ext list" where
  "an_star_rows mh X_data std_b2 std_b3 kappa_n hat_r_inf I =
     (let n = length X_data in
      case m_hat0_of mh X_data of
        Inl e \<Rightarrow> Inl e
      | Inr m_hat0 \<Rightarrow>
         (let r_hat_vec = r_hat_vec_of m_hat0 in
          case np_max r_hat_vec of
            Inl e \<Rightarrow> Inl e
          | Inr r_hat0 \<Rightarrow>
             if length std_b3 \<noteq> length m_hat0 then Inl ShapeError
             else
              (let hat_j_r = hat_j_r_of n r_hat_vec r_hat0 std_b3 kappa_n;
                   hat_b = hat_b_of n r_hat_vec hat_r_inf std_b3 kappa_n;
                   phi_n = phi_n_of n r_hat_vec hat_r_inf std_b3 kappa_n
               in case mhat_star mh X_data I of
                    Inl e \<Rightarrow> Inl e
                  | Inr ms \<Rightarrow>
                     if length std_b2 \<noteq> length m_hat0 then Inl ShapeError
                     else
                      (let hat_hi_star = hat_hi_star_of n m_hat0 std_b2 kappa_n ms in
                       case collect (near_binding_loop hat_b phi_n hat_hi_star hat_j_r) of
                         Inl e \<Rightarrow> Inl e
                       | Inr aux_vec2 \<Rightarrow> min_over_columns (length ms) aux_vec2))))"

definition an_star ::
  "'g np_random \<Rightarrow> (matrix \<Rightarrow> vec) \<Rightarrow> matrix \<Rightarrow> vec \<Rightarrow> vec \<Rightarrow> real \<Rightarrow> real \<Rightarrow> nat option \<Rightarrow>
   int option \<Rightarrow> index_matrix option \<Rightarrow> 'g world \<Rightarrow> (error + ext list) \<times> 'g world" where
  "an_star rng mh X_data std_b2 std_b3 kappa_n hat_r_inf bootstrap_replications rng_seed
           bootstrap_indices w =
     (case bootstrap_draw rng (length X_data) bootstrap_replications rng_seed
             bootstrap_indices w of
        (Inl e, w1) \<Rightarrow> (Inl e, w1)
      | (Inr I, w1) \<Rightarrow> (an_star_rows mh X_data std_b2 std_b3 kappa_n hat_r_inf I, w1))"

subsection \<open>cvalue\_SPUR1\<close>

text \<open>\<open>x.clip(max=0)\<close> for one entry: \<open>+inf\<close> is clipped to 0 like every positive value.\<close>

fun clip_max0 :: "ext \<Rightarrow> real" where
  "clip_max0 PInf = 0"
| "clip_max0 (Fin x) = min x 0"

text \<open>
  \<open>np.max(-1 * (tn_vec + an_vec[:, np.newaxis]).clip(max=0), axis=1)\<close>; the vector
  \<open>an_vec\<close> has one entry per row of \<open>tn_vec\<close>.
\<close>

definition sn_star_of :: "ext list list \<Rightarrow> ext list \<Rightarrow> error + vec" where
  "sn_star_of tn_vec an =
     (if length an \<noteq> length tn_vec then Inl ShapeError
      else collect (map2 (\<lambda>row a. np_max (map (\<lambda>t. -1 * clip_max0 (ext_add t a)) row))
                         tn_vec an))"

text \<open>
  \<open>np.quantile(xs, q, interpolation="midpoint")\<close>. numpy is a library, not part of the
  sources; this is its documented rule: with the sample sorted and the rank
  \<open>h = (N - 1) * q\<close>, a product of doubles, the result is the mean of the entries at
  \<open>floor h\<close> and \<open>ceil h\<close>, a rank beyond the last entry being read at the last entry.
  A \<open>q\<close> outside \<open>[0, 1]\<close> raises, and the quantile of an empty sample is NaN.
\<close>

definition np_quantile_midpoint :: "vec \<Rightarrow> real \<Rightarrow> error + real" where
  "np_quantile_midpoint xs q =
     (if 0 \<le> q \<and> q \<le> 1 then
        (if xs = [] then Inl NanResult
         else (let s = sort xs; N = length xs; h = round_double (real (N - 1) * q)
               in Inr ((s ! min (nat \<lfloor>h\<rfloor>) (N - 1) + s ! min (nat \<lceil>h\<rceil>) (N - 1)) / 2)))
      else Inl QuantileRangeError)"

text \<open>
  In \<open>cvalue_SPUR1\<close> the argument \<open>alpha\<close> is a double (a real that is not one is read as
  the nearest double, as a literal is), and the level \<open>1 - alpha\<close> is a difference of
  doubles, rounded before \<open>np.quantile\<close> receives it.
\<close>

definition cvalue_SPUR1 ::
  "'g np_random \<Rightarrow> (matrix \<Rightarrow> vec) \<Rightarrow> matrix \<Rightarrow> real \<Rightarrow> ext list \<Rightarrow> nat option \<Rightarrow> int option \<Rightarrow>
   index_matrix option \<Rightarrow> 'g world \<Rightarrow> (error + real) \<times> 'g world" where
  "cvalue_SPUR1 rng mh X_data alpha an_vec bootstrap_replications rng_seed bootstrap_indices w =
     (let n = length X_data in
      if n = 0 then (Inl NanResult, w)
      else
       (let kappa_n = sqrt (ln (real n)) in
        case std_b_vec rng mh X_data bootstrap_replications rng_seed bootstrap_indices w of
          (Inl e, w1) \<Rightarrow> (Inl e, w1)
        | (Inr std_b0, w1) \<Rightarrow>
           (let std_b1 = std_b0 ! 0 in
            case tn_star rng mh X_data std_b1 kappa_n bootstrap_replications rng_seed
                   bootstrap_indices w1 of
              (Inl e, w2) \<Rightarrow> (Inl e, w2)
            | (Inr tn_vec, w2) \<Rightarrow>
               (case sn_star_of tn_vec an_vec of
                  Inl e \<Rightarrow> (Inl e, w2)
                | Inr sn_star_vec \<Rightarrow>
                   (np_quantile_midpoint sn_star_vec (round_double (1 - round_double alpha)), w2)))))"

subsection \<open>an\_vec\<close>

text \<open>\<open>the_theta = np.zeros(2); the_theta[grid0 - 1] = t\<close>, with Python's indexing.\<close>

definition the_theta_of :: "int \<Rightarrow> real \<Rightarrow> error + vec" where
  "the_theta_of grid0 t =
     (let i = grid0 - 1; j = (if i < 0 then i + 2 else i)
      in if 0 \<le> j \<and> j < 2 then Inr ([0, 0][nat j := t]) else Inl IndexError)"

text \<open>\<open>(aux1_var <= tau_n / np.sqrt(n)) | (aux1_var == 1)\<close>\<close>

definition boole_of_interest_of :: "nat \<Rightarrow> vec \<Rightarrow> bool list" where
  "boole_of_interest_of n aux1_var =
     map (\<lambda>a. a \<le> sqrt (ln (real n)) / sqrt (real n) \<or> a = 1) aux1_var"

text \<open>\<open>theta_grid[boole_of_interest]\<close>: the mask has to be as long as the grid.\<close>

definition theta_of_interest_of :: "bool list \<Rightarrow> vec \<Rightarrow> error + vec" where
  "theta_of_interest_of boole theta_grid =
     (if length boole \<noteq> length theta_grid then Inl IndexError
      else Inr (map snd (filter fst (zip boole theta_grid))))"

text \<open>
  A loop whose body may raise and changes the state: the results of the iterations, in
  order, up to the first exception.
\<close>

fun for_each ::
  "('a \<Rightarrow> 's \<Rightarrow> (error + 'b) \<times> 's) \<Rightarrow> 'a list \<Rightarrow> 's \<Rightarrow> (error + 'b list) \<times> 's" where
  "for_each body [] w = (Inr [], w)"
| "for_each body (t # ts) w =
     (case body t w of
        (Inl e, w1) \<Rightarrow> (Inl e, w1)
      | (Inr c, w1) \<Rightarrow>
         (case for_each body ts w1 of
            (Inl e, w2) \<Rightarrow> (Inl e, w2)
          | (Inr cs, w2) \<Rightarrow> (Inr (c # cs), w2)))"

text \<open>
  The body of the loop over the retained grid points, for the point \<open>t\<close>; \<open>m_function\<close>
  lives in moment.py and is a parameter. The result is the column \<open>an_mat[:, i]\<close>, which
  has \<open>BB\<close> entries.
\<close>

definition an_vec_body ::
  "'g np_random \<Rightarrow> (matrix \<Rightarrow> vec) \<Rightarrow>
   ('w \<Rightarrow> matrix \<Rightarrow> vec \<Rightarrow> 'j \<Rightarrow> real \<Rightarrow> 'iv \<Rightarrow> int \<Rightarrow> matrix) \<Rightarrow>
   real \<Rightarrow> real \<Rightarrow> 'w \<Rightarrow> matrix \<Rightarrow> 'j \<Rightarrow> real \<Rightarrow> 'iv \<Rightarrow> int \<Rightarrow> nat option \<Rightarrow> int option \<Rightarrow>
   index_matrix option \<Rightarrow> nat \<Rightarrow> real \<Rightarrow> 'g world \<Rightarrow> (error + ext list) \<times> 'g world" where
  "an_vec_body rng mh m_function kappa_n hat_r_inf W_data A_matrix J0_vec Vbar IV_matrix grid0
               bootstrap_replications rng_seed bootstrap_indices BB t w =
     (case the_theta_of grid0 t of
        Inl e \<Rightarrow> (Inl e, w)
      | Inr the_theta \<Rightarrow>
         (let X_data = map (map (\<lambda>x. - x))
                           (m_function W_data A_matrix the_theta J0_vec Vbar IV_matrix grid0)
          in case std_b_vec rng mh X_data bootstrap_replications rng_seed bootstrap_indices w of
               (Inl e, w1) \<Rightarrow> (Inl e, w1)
             | (Inr b0_vec, w1) \<Rightarrow>
                (let std_b2 = b0_vec ! 1; std_b3 = b0_vec ! 2 in
                 case an_star rng mh X_data std_b2 std_b3 kappa_n hat_r_inf
                        bootstrap_replications rng_seed bootstrap_indices w1 of
                   (Inl e, w2) \<Rightarrow> (Inl e, w2)
                 | (Inr c, w2) \<Rightarrow>
                    if length c \<noteq> BB then (Inl ShapeError, w2) else (Inr c, w2))))"

definition an_vec ::
  "'g np_random \<Rightarrow> (matrix \<Rightarrow> vec) \<Rightarrow>
   ('w \<Rightarrow> matrix \<Rightarrow> vec \<Rightarrow> 'j \<Rightarrow> real \<Rightarrow> 'iv \<Rightarrow> int \<Rightarrow> matrix) \<Rightarrow>
   vec \<Rightarrow> real \<Rightarrow> 'w \<Rightarrow> matrix \<Rightarrow> vec \<Rightarrow> 'j \<Rightarrow> real \<Rightarrow> 'iv \<Rightarrow> int \<Rightarrow> nat option \<Rightarrow> int option \<Rightarrow>
   index_matrix option \<Rightarrow> 'g world \<Rightarrow> (error + ext list) \<times> 'g world" where
  "an_vec rng mh m_function aux1_var hat_r_inf W_data A_matrix theta_grid J0_vec Vbar IV_matrix
          grid0 bootstrap_replications rng_seed bootstrap_indices w =
     (let n = length A_matrix in
      if n = 0 then (Inl NanResult, w)
      else
       (let kappa_n = sqrt (ln (real n));
            boole_of_interest = boole_of_interest_of n aux1_var
        in case theta_of_interest_of boole_of_interest theta_grid of
             Inl e \<Rightarrow> (Inl e, w)
           | Inr theta_of_interest \<Rightarrow>
              (case (case bootstrap_indices of
                       None \<Rightarrow> (case bootstrap_replications of
                                  None \<Rightarrow> Inl TypeError
                                | Some B \<Rightarrow> Inr B)
                     | Some I \<Rightarrow> Inr (length I)) of
                 Inl e \<Rightarrow> (Inl e, w)
               | Inr BB \<Rightarrow>
                  (case for_each
                          (an_vec_body rng mh m_function kappa_n hat_r_inf W_data A_matrix J0_vec
                             Vbar IV_matrix grid0 bootstrap_replications rng_seed
                             bootstrap_indices BB)
                          theta_of_interest w of
                     (Inl e, w1) \<Rightarrow> (Inl e, w1)
                   | (Inr an_mat, w1) \<Rightarrow> (min_over_columns BB an_mat, w1)))))"

subsection \<open>Collaborators for concrete runs\<close>

text \<open>An aggregate to run the functions with: the mean of every column.\<close>

definition col_mean :: "matrix \<Rightarrow> vec" where
  "col_mean M = map (\<lambda>j. mean (col M j)) [0..<ncols M]"

text \<open>
  A generator to run the functions with: its state is a counter, every draw fills the
  matrix with the counter reduced modulo \<open>n\<close> and advances the counter.
\<close>

definition counter_rng :: "nat np_random" where
  "counter_rng =
     \<lparr>seed = (\<lambda>s. nat s),
      randint = (\<lambda>g n B m. (replicate B (replicate m (g mod n)), Suc g))\<rparr>"

subsection \<open>The near-binding alternatives as the specification words them\<close>

text \<open>
  The specification's sentence: for every near-binding moment index, substitute the
  GMS-penalized value into \<open>hat_b\<close> at that index only, and take the row-wise max over
  moments of \<open>hat_b + hat_hi_star\<close>. Every alternative starts from the original
  \<open>hat_b\<close>.
\<close>

definition near_binding_spec ::
  "ext list \<Rightarrow> ext list \<Rightarrow> matrix \<Rightarrow> nat list \<Rightarrow> (error + ext list) list" where
  "near_binding_spec hat_b phi_n hat_hi_star hat_j_r =
     map (\<lambda>j. collect (map (\<lambda>row. ext_np_max (map2 ext_add (hat_b[j := phi_n ! j]) (map Fin row)))
                           hat_hi_star))
         hat_j_r"

subsection \<open>The restriction of the grid as the specification words it\<close>


text \<open>The minimum of a row clipped at 0: an entry of \<open>mn_star_vec\<close>.\<close>

definition row_min0 :: "vec \<Rightarrow> real" where
  "row_min0 r = Min (set (map (\<lambda>x. min x 0) r))"

subsection \<open>cvalue\_SPUR1 on a given index matrix\<close>

text \<open>
  The computation of \<open>cvalue_SPUR1\<close> when \<open>std_b_vec\<close> and \<open>tn_star\<close> both resample
  with the index matrix \<open>I\<close>; the properties below show when the code does.
\<close>

definition cvalue_SPUR1_rows ::
  "(matrix \<Rightarrow> vec) \<Rightarrow> matrix \<Rightarrow> real \<Rightarrow> ext list \<Rightarrow> index_matrix \<Rightarrow> error + real" where
  "cvalue_SPUR1_rows mh X_data alpha an I =
     (if X_data = [] then Inl NanResult
      else
       case std_b_rows mh X_data I of
         Inl e \<Rightarrow> Inl e
       | Inr std_b0 \<Rightarrow>
          (case tn_star_rows mh X_data (std_b0 ! 0) (sqrt (ln (real (length X_data)))) I of
             Inl e \<Rightarrow> Inl e
           | Inr tn_vec \<Rightarrow>
              (case sn_star_of tn_vec an of
                 Inl e \<Rightarrow> Inl e
               | Inr sn_star_vec \<Rightarrow>
                  np_quantile_midpoint sn_star_vec (round_double (1 - round_double alpha)))))"

subsection \<open>The index matrix a bootstrap configuration stands for\<close>

text \<open>
  An explicit index matrix stands for itself; a replication count with a seed stands
  for the matrix drawn right after seeding; a replication count without a seed stands
  for no matrix in particular, since the draw depends on the state of the generator.
\<close>

definition config_matrix ::
  "'g np_random \<Rightarrow> nat \<Rightarrow> nat option \<Rightarrow> int option \<Rightarrow> index_matrix option \<Rightarrow>
   index_matrix option" where
  "config_matrix rng n bootstrap_replications rng_seed bootstrap_indices =
     (case bootstrap_indices of
        Some I \<Rightarrow> Some I
      | None \<Rightarrow>
         (case bootstrap_replications of
            None \<Rightarrow> None
          | Some B \<Rightarrow>
             (case rng_seed of
                None \<Rightarrow> None
              | Some s \<Rightarrow> Some (fst (randint rng (seed rng s) n B n)))))"

subsection \<open>The critical value as the specification words it\<close>

text \<open>
  An entry of \<open>sn_star\<close> before the maximum over the moments: the negated sum, clipped
  below at 0 (the negation of \<open>+inf\<close> is below every real).
\<close>

fun neg_clip_below0 :: "ext \<Rightarrow> real" where
  "neg_clip_below0 PInf = 0"
| "neg_clip_below0 (Fin x) = max (- x) 0"



section \<open>Properties\<close>

subsection \<open>Rounding to doubles\<close>

lemma rne_bounds: "\<lfloor>x\<rfloor> \<le> rne x \<and> rne x \<le> \<lfloor>x\<rfloor> + 1"
  by (simp add: rne_def Let_def)

lemma rne_of_int: "rne (of_int k) = k"
  by (simp add: rne_def)

lemma rne_mono:
  assumes "x \<le> y"
  shows "rne x \<le> rne y"
proof (cases "\<lfloor>x\<rfloor> = \<lfloor>y\<rfloor>")
  case True
  with assms show ?thesis by (auto simp: rne_def Let_def)
next
  case False
  with assms have "\<lfloor>x\<rfloor> < \<lfloor>y\<rfloor>" by (simp add: floor_mono le_neq_trans)
  with rne_bounds [of x] rne_bounds [of y] show ?thesis by linarith
qed

lemma binade:
  assumes "0 < x"
  shows "2 powr of_int \<lfloor>log 2 x\<rfloor> \<le> x \<and> x < 2 powr (of_int \<lfloor>log 2 x\<rfloor> + 1)"
  using floor_log_eq_powr_iff [of x 2 "\<lfloor>log 2 x\<rfloor>"] assms by simp

lemma round_pos_bounds:
  assumes "0 < x"
  shows "2 powr of_int \<lfloor>log 2 x\<rfloor> \<le> round_pos x
         \<and> round_pos x \<le> 2 powr (of_int \<lfloor>log 2 x\<rfloor> + 1)"
proof -
  let ?e = "\<lfloor>log 2 x\<rfloor>"
  let ?u = "2 powr (of_int ?e - 52) :: real"
  have u: "0 < ?u" by simp
  have lo: "2 powr of_int ?e = ?u * of_int (2 ^ 52 :: int)"
    by (simp add: powr_diff)
  have hi: "2 powr (of_int ?e + 1) = ?u * of_int (2 ^ 53 :: int)"
    by (simp add: powr_diff powr_add)
  from binade [OF assms] have "?u * of_int (2 ^ 52 :: int) \<le> x" "x \<le> ?u * of_int (2 ^ 53 :: int)"
    using lo hi by simp_all
  then have q: "of_int (2 ^ 52 :: int) \<le> x / ?u" "x / ?u \<le> of_int (2 ^ 53 :: int)"
    using u by (simp_all add: pos_le_divide_eq pos_divide_le_eq mult.commute)
  have "rne (of_int (2 ^ 52 :: int)) \<le> rne (x / ?u)" "rne (x / ?u) \<le> rne (of_int (2 ^ 53 :: int))"
    by (rule rne_mono [OF q(1)], rule rne_mono [OF q(2)])
  then have "(2 ^ 52 :: int) \<le> rne (x / ?u)" "rne (x / ?u) \<le> (2 ^ 53 :: int)"
    by (simp_all only: rne_of_int)
  then have "of_int (2 ^ 52 :: int) \<le> (of_int (rne (x / ?u)) :: real)"
    "(of_int (rne (x / ?u)) :: real) \<le> of_int (2 ^ 53 :: int)"
    by (simp_all only: of_int_le_iff)
  then have "?u * of_int (2 ^ 52 :: int) \<le> ?u * of_int (rne (x / ?u))"
    "?u * of_int (rne (x / ?u)) \<le> ?u * of_int (2 ^ 53 :: int)"
    using u by (simp_all only: mult_le_cancel_left_pos)
  then show ?thesis
    by (simp only: lo hi round_pos_def Let_def)
qed

lemma round_pos_mono:
  assumes "0 < x" and "x \<le> y"
  shows "round_pos x \<le> round_pos y"
proof -
  have y: "0 < y" using assms by linarith
  have le: "\<lfloor>log 2 x\<rfloor> \<le> \<lfloor>log 2 y\<rfloor>"
    using assms y by (intro floor_mono) simp
  show ?thesis
  proof (cases "\<lfloor>log 2 x\<rfloor> = \<lfloor>log 2 y\<rfloor>")
    case True
    let ?u = "2 powr (of_int \<lfloor>log 2 y\<rfloor> - 52) :: real"
    have "x / ?u \<le> y / ?u" using assms(2) by (simp add: divide_right_mono)
    then have "rne (x / ?u) \<le> rne (y / ?u)" by (rule rne_mono)
    then have "?u * of_int (rne (x / ?u)) \<le> ?u * of_int (rne (y / ?u))"
      by (simp add: mult_left_mono)
    then show ?thesis by (simp add: round_pos_def Let_def True)
  next
    case False
    with le have "\<lfloor>log 2 x\<rfloor> + 1 \<le> \<lfloor>log 2 y\<rfloor>" by simp
    then have "(of_int \<lfloor>log 2 x\<rfloor> + 1 :: real) \<le> of_int \<lfloor>log 2 y\<rfloor>" by linarith
    then have "(2::real) powr (of_int \<lfloor>log 2 x\<rfloor> + 1) \<le> 2 powr of_int \<lfloor>log 2 y\<rfloor>"
      by (simp only: powr_le_cancel_iff one_less_numeral_iff semiring_norm)
    with round_pos_bounds [OF assms(1)] round_pos_bounds [OF y] show ?thesis by linarith
  qed
qed

lemma round_pos_pos: "0 < x \<Longrightarrow> 0 < round_pos x"
  using round_pos_bounds [of x] powr_gt_zero [of 2 "of_int \<lfloor>log 2 x\<rfloor>"] by linarith

lemma round_double_mono:
  assumes "0 \<le> x" and "x \<le> y"
  shows "round_double x \<le> round_double y"
proof (cases "x = 0")
  case True
  then show ?thesis
    using assms round_pos_pos [of y] by (auto simp: round_double_def less_eq_real_def)
next
  case False
  with assms have "0 < x" "0 < y" by linarith+
  with round_pos_mono [OF \<open>0 < x\<close> assms(2)] show ?thesis by (simp add: round_double_def)
qed

lemma round_double_0: "round_double 0 = 0"
  by (simp add: round_double_def)

lemma round_double_1: "round_double 1 = 1"
proof -
  have "round_pos 1 = 2 powr (- 52) * of_int (rne (1 / 2 powr (- 52)))"
    by (simp add: round_pos_def Let_def)
  also have "(1::real) / 2 powr (- 52) = of_int (2 ^ 52)"
    by (simp add: powr_minus_divide)
  also have "rne (of_int (2 ^ 52)) = 2 ^ 52" by (rule rne_of_int)
  also have "(2::real) powr (- 52) * of_int (2 ^ 52) = 1"
    by (simp add: powr_minus_divide)
  finally show ?thesis by (simp add: round_double_def)
qed




lemma iota_pos: "0 < iota"
  unfolding iota_def round_double_def by (simp add: round_pos_pos)

lemma iota_le_one: "iota \<le> 1"
proof -
  have "round_double (1 / 1000000) \<le> round_double 1"
    by (rule round_double_mono) simp_all
  then show ?thesis by (simp only: iota_def round_double_1)
qed

subsection \<open>Evaluation of the collaborators\<close>

lemma col_mean_one_row: "col_mean [r] = r"
  by (simp add: col_mean_def ncols_def col_def mean_def map_nth)

subsection \<open>an\_star: the near-binding alternatives\<close>

text \<open>
  Claim C1. In \<open>an_star\<close>, the alternative of a near-binding index \<open>j\<close> should carry
  \<open>phi_n[j]\<close> at index \<open>j\<close> and the original \<open>hat_b\<close> everywhere else, and the result is
  the elementwise minimum over the alternatives. The code does not do this: \<open>hat_bnew\<close>
  is the array \<open>hat_b\<close> itself, so a substitution stays in place for the later
  alternatives. Run on one observation \<open>(-1, -1)\<close> with \<open>std_b2 = (1, 1)\<close>,
  \<open>std_b3 = (1/2, 1)\<close>, \<open>kappa_n = 1\<close>, \<open>hat_r_inf = 0\<close> and the index matrix \<open>((0))\<close>:
  both indices are near-binding, \<open>hat_b = (1/2, 0)\<close> and \<open>phi_n = (+inf, 0)\<close>. The
  alternatives of the claim are \<open>(+inf, 0)\<close> and \<open>(1/2, 0)\<close>, with minimum \<open>1/2\<close>;
  the loop of the code builds \<open>(+inf, 0)\<close> twice and \<open>an_star\<close> returns \<open>+inf\<close>.
\<close>

theorem an_star_aliasing_run:
  "hat_j_r_of 1 (r_hat_vec_of [-1, -1]) 1 [1/2, 1] 1 = [0, 1]
   \<and> hat_b_of 1 (r_hat_vec_of [-1, -1]) 0 [1/2, 1] 1 = [Fin (1/2), Fin 0]
   \<and> phi_n_of 1 (r_hat_vec_of [-1, -1]) 0 [1/2, 1] 1 = [PInf, Fin 0]
   \<and> collect (near_binding_spec [Fin (1/2), Fin 0] [PInf, Fin 0] [[0, 0]] [0, 1])
       = Inr [[PInf], [Fin (1/2)]]
   \<and> collect (near_binding_loop [Fin (1/2), Fin 0] [PInf, Fin 0] [[0, 0]] [0, 1])
       = Inr [[PInf], [PInf]]
   \<and> min_over_columns 1 [[PInf], [Fin (1/2)]] = Inr [Fin (1/2)]
   \<and> an_star_rows col_mean [[-1, -1]] [1, 1] [1/2, 1] 1 0 [[0]] = Inr [PInf]"
  by (simp add: an_star_rows_def m_hat0_of_def mhat_star_def take_rows_def col_mean_one_row
        ncols_def r_hat_vec_of_def hat_j_r_of_def hat_b_of_def phi_n_of_def hat_hi_star_of_def
        gt_one_def ge_sub_quot_def min_over_columns_def near_binding_spec_def
        ext_max_def ext_min_def upt_rec Let_def)

subsection \<open>The missing bootstrap configuration\<close>

text \<open>
  Claim C5. With neither a replication count nor an index matrix, every bootstrap-based
  operation should raise the configuration error at once. \<open>std_b_vec\<close>, \<open>tn_star\<close> and
  \<open>an_star\<close> do, for every input, and leave the generator untouched. \<open>an_vec\<close> has no
  such check: it computes the restriction of the grid, takes \<open>BB = None\<close> and fails in
  \<open>np.zeros((BB, ...))\<close> with a TypeError, here on one observation and one grid point.
\<close>

theorem missing_configuration_run:
  "std_b_vec rng mh X_data None rng_seed None w = (Inl ConfigError, w)
   \<and> tn_star rng mh X_data std_b1 kappa_n None rng_seed None w = (Inl ConfigError, w)
   \<and> an_star rng mh X_data std_b2 std_b3 kappa_n hat_r_inf None rng_seed None w
       = (Inl ConfigError, w)
   \<and> an_vec counter_rng col_mean (\<lambda>W A theta J V IV g. [[theta ! 0]]) [0] 0 () [[0]] [0] () 0 () 1
         None None None \<lparr>gen = 0, used = []\<rparr>
       = (Inl TypeError, \<lparr>gen = 0, used = []\<rparr>)"
  by (simp add: std_b_vec_def tn_star_def an_star_def bootstrap_draw_def an_vec_def
        boole_of_interest_of_def theta_of_interest_of_def)

subsection \<open>an\_vec: the restriction of the grid\<close>





subsection \<open>an\_vec: an empty restriction\<close>

text \<open>
  Claim C9, as stated: when the restriction retains no grid point, \<open>an_vec\<close> fails with
  the reduction error of the minimum over an empty axis. When the bootstrap configuration
  is missing as well, it does not get that far: \<open>np.zeros((None, 0))\<close> raises a TypeError.
\<close>

theorem an_vec_empty_filter_type_error:
  "theta_of_interest_of (boole_of_interest_of 1 [5]) [0] = Inr []
   \<and> an_vec counter_rng col_mean (\<lambda>W A theta J V IV g. [[theta ! 0]]) [5] 0 () [[0]] [0] () 0 () 1
         None None None \<lparr>gen = 0, used = []\<rparr>
       = (Inl TypeError, \<lparr>gen = 0, used = []\<rparr>)"
  by (simp add: an_vec_def boole_of_interest_of_def theta_of_interest_of_def)

text \<open>
  Claim C9, amended: when the restriction retains no grid point and a replication count or
  an index matrix is given, \<open>an_vec\<close> returns no penalty vector and raises neither the
  configuration error nor any other but the reduction error of \<open>np.min\<close> over the empty
  axis of candidates; nothing has been drawn or resampled by then.
\<close>

theorem an_vec_empty_filter:
  assumes "A_matrix \<noteq> []"
    and "theta_of_interest_of (boole_of_interest_of (length A_matrix) aux1_var) theta_grid = Inr []"
    and "bootstrap_replications \<noteq> None \<or> bootstrap_indices \<noteq> None"
  shows "an_vec rng mh m_function aux1_var hat_r_inf W_data A_matrix theta_grid J0_vec Vbar
           IV_matrix grid0 bootstrap_replications rng_seed bootstrap_indices w
         = (Inl ReductionError, w)"
  using assms
  by (auto simp: an_vec_def min_over_columns_def split: option.splits)

theorem an_vec_empty_filter_witness:
  "[[0::real]] \<noteq> []
   \<and> theta_of_interest_of (boole_of_interest_of (length [[0::real]]) [5]) [0] = Inr []
   \<and> an_vec counter_rng col_mean (\<lambda>W A theta J V IV g. [[theta ! 0]]) [5] 0 () [[0]] [0] () 0 () 1
         (Some 2) None None \<lparr>gen = 0, used = []\<rparr>
       = (Inl ReductionError, \<lparr>gen = 0, used = []\<rparr>)"
  using an_vec_empty_filter [of "[[0]]" "[5]" "[0]" "Some 2" None counter_rng col_mean
     "\<lambda>W A theta J V IV g. [[theta ! 0]]" 0 "()" "()" 0 "()" 1 None "\<lparr>gen = 0, used = []\<rparr>"]
  by (simp add: boole_of_interest_of_def theta_of_interest_of_def)

subsection \<open>an\_star: the near-binding index set\<close>

lemma collect_Inl: "collect xs = Inl e \<Longrightarrow> Inl e \<in> set xs"
  by (induction xs rule: collect.induct) (auto split: sum.splits)

lemma collect_length: "collect xs = Inr ys \<Longrightarrow> length ys = length xs"
  by (induction xs arbitrary: ys rule: collect.induct) (auto split: sum.splits)

lemma np_max_Max:
  assumes "xs \<noteq> []"
  shows "np_max xs = Inr (Max (set xs))"
proof (cases xs)
  case Nil
  with assms show ?thesis by simp
next
  case (Cons x ys)
  have "fold max ys x = Max (set (x # ys))" by (rule Max.set_eq_fold [symmetric])
  with Cons show ?thesis by simp
qed

lemma ext_np_max_ok: "xs \<noteq> [] \<Longrightarrow> \<exists>v. ext_np_max xs = Inr v"
  by (cases xs) simp_all

lemma ext_np_min_ok: "xs \<noteq> [] \<Longrightarrow> \<exists>v. ext_np_min xs = Inr v"
  by (cases xs) simp_all

lemma near_binding_loop_length:
  "length (near_binding_loop hat_b phi_n hhs js) = length js"
  by (induction js arbitrary: hat_b) (simp_all add: Let_def)

lemma near_binding_loop_ok:
  assumes "hat_b \<noteq> []" and "\<forall>row \<in> set hhs. row \<noteq> []"
  shows "Inl e \<notin> set (near_binding_loop hat_b phi_n hhs js)"
  using assms(1)
proof (induction js arbitrary: hat_b)
  case Nil
  then show ?case by simp
next
  case (Cons j js)
  let ?hb = "hat_b[j := phi_n ! j]"
  have ne: "?hb \<noteq> []" using Cons.prems by simp
  have "collect (map (\<lambda>row. ext_np_max (map2 ext_add ?hb (map Fin row))) hhs) \<noteq> Inl e"
  proof
    assume "collect (map (\<lambda>row. ext_np_max (map2 ext_add ?hb (map Fin row))) hhs) = Inl e"
    then have "Inl e \<in> set (map (\<lambda>row. ext_np_max (map2 ext_add ?hb (map Fin row))) hhs)"
      by (rule collect_Inl)
    then obtain row where row: "row \<in> set hhs"
      and bad: "ext_np_max (map2 ext_add ?hb (map Fin row)) = Inl e" by auto
    from row assms(2) have "row \<noteq> []" by blast
    with ne have "map2 ext_add ?hb (map Fin row) \<noteq> []"
      by (cases ?hb; cases row) simp_all
    from ext_np_max_ok [OF this] bad show False by auto
  qed
  with Cons.IH [OF ne] show ?case by (auto simp: Let_def)
qed

lemma take_rows_Inl: "take_rows X row = Inl e \<Longrightarrow> e = IndexError"
  by (simp add: take_rows_def split: if_splits)

lemma mhat_star_Inl:
  assumes "mhat_star mh X I = Inl e"
  shows "e = IndexError \<or> e = ShapeError"
proof (cases "collect (map (take_rows X) I)")
  case (Inl e')
  then have "Inl e' \<in> set (map (take_rows X) I)" by (rule collect_Inl)
  then obtain row where "take_rows X row = Inl e'" by auto
  then have "e' = IndexError" by (rule take_rows_Inl)
  with Inl assms show ?thesis by (simp add: mhat_star_def)
next
  case (Inr Xs)
  with assms show ?thesis by (simp add: mhat_star_def split: if_splits)
qed

lemma min_over_columns_ok:
  "cols \<noteq> [] \<Longrightarrow> \<exists>v. min_over_columns B cols = Inr v \<and> length v = B"
proof -
  assume ne: "cols \<noteq> []"
  let ?xs = "map (\<lambda>b. ext_np_min (map (\<lambda>c. c ! b) cols)) [0..<B]"
  have "\<And>e. collect ?xs \<noteq> Inl e"
  proof
    fix e assume "collect ?xs = Inl e"
    then have "Inl e \<in> set ?xs" by (rule collect_Inl)
    then obtain b where "ext_np_min (map (\<lambda>c. c ! b) cols) = Inl e" by auto
    moreover have "map (\<lambda>c. c ! b) cols \<noteq> []" using ne by simp
    from ext_np_min_ok [OF this] obtain v where "ext_np_min (map (\<lambda>c. c ! b) cols) = Inr v"
      by blast
    ultimately show False by simp
  qed
  then obtain v where v: "collect ?xs = Inr v" by (cases "collect ?xs") auto
  from collect_length [OF v] v ne show ?thesis by (simp add: min_over_columns_def)
qed

lemma hat_j_r_contains_max:
  assumes n: "0 < n" and k: "r \<noteq> []" and len: "length std_b3 = length r"
    and kappa: "0 \<le> kappa_n" and pos: "\<forall>s \<in> set std_b3. 0 \<le> s"
  shows "\<exists>j. j < length r \<and> r ! j = Max (set r) \<and>
             j \<in> set (hat_j_r_of n r (Max (set r)) std_b3 kappa_n)"
proof -
  have "Max (set r) \<in> set r" using k by (intro Max_in) simp_all
  then obtain j where j: "j < length r" "r ! j = Max (set r)"
    by (auto simp: in_set_conv_nth)
  have "0 \<le> std_b3 ! j" using pos j(1) len by (simp add: all_set_conv_all_nth)
  then have "0 \<le> std_b3 ! j * kappa_n / sqrt (real n)"
    using kappa n by simp
  then have "ge_sub_quot (r ! j) (Max (set r)) (std_b3 ! j * kappa_n) (sqrt (real n))"
    using n j(2) by (simp add: ge_sub_quot_def)
  with j show ?thesis by (auto simp: hat_j_r_of_def)
qed

text \<open>
  Claim C10. In \<open>an_star\<close>, for an \<open>X_data\<close> with at least one row and one column
  (and an aggregate with one entry per column), a \<open>kappa_n \<ge> 0\<close> and a \<open>std_b3\<close> of
  non-negative entries, one per column: the maximal violation \<open>r_hat0\<close> exists, an index
  attaining it is in \<open>hat_j_r\<close>, so \<open>hat_j_r\<close> is not empty, and \<open>an_star\<close> never fails
  with the error of a reduction over an empty axis, whatever the index matrix.
\<close>

theorem an_star_near_binding_nonempty:
  assumes "X_data \<noteq> []" and "0 < ncols X_data"
    and "length (mh X_data) = ncols X_data"
    and "length std_b3 = ncols X_data"
    and "0 \<le> kappa_n" and "\<forall>s \<in> set std_b3. 0 \<le> s"
  shows "\<exists>r_hat0 j. np_max (r_hat_vec_of (mh X_data)) = Inr r_hat0
           \<and> j < ncols X_data \<and> r_hat_vec_of (mh X_data) ! j = r_hat0
           \<and> j \<in> set (hat_j_r_of (length X_data) (r_hat_vec_of (mh X_data)) r_hat0 std_b3 kappa_n)
           \<and> hat_j_r_of (length X_data) (r_hat_vec_of (mh X_data)) r_hat0 std_b3 kappa_n \<noteq> []
           \<and> an_star_rows mh X_data std_b2 std_b3 kappa_n hat_r_inf I \<noteq> Inl ReductionError"
proof -
  let ?r = "r_hat_vec_of (mh X_data)"
  let ?J = "hat_j_r_of (length X_data) ?r (Max (set ?r)) std_b3 kappa_n"
  have lr: "length ?r = ncols X_data" using assms(3) by (simp add: r_hat_vec_of_def)
  then have ne: "?r \<noteq> []" using assms(2) by auto
  have mx: "np_max ?r = Inr (Max (set ?r))" using ne by (rule np_max_Max)
  have n: "0 < length X_data" using assms(1) by simp
  have l3: "length std_b3 = length ?r" using assms(4) lr by simp
  from hat_j_r_contains_max [OF n ne l3 assms(5) assms(6)]
  obtain j where j: "j < length ?r" "?r ! j = Max (set ?r)" "j \<in> set ?J" by blast
  then have J: "?J \<noteq> []" by auto
  have "an_star_rows mh X_data std_b2 std_b3 kappa_n hat_r_inf I \<noteq> Inl ReductionError"
  proof (cases "mhat_star mh X_data I")
    case (Inl e)
    then have "an_star_rows mh X_data std_b2 std_b3 kappa_n hat_r_inf I = Inl e"
      using mx assms(3,4) by (simp add: an_star_rows_def m_hat0_of_def Let_def)
    moreover have "e \<noteq> ReductionError"
      using mhat_star_Inl [OF Inl] by auto
    ultimately show ?thesis by simp
  next
    case (Inr ms)
    show ?thesis
    proof (cases "length std_b2 = ncols X_data")
      case False
      then show ?thesis
        using mx assms(3,4) Inr by (simp add: an_star_rows_def m_hat0_of_def Let_def)
    next
      case True
      let ?hb = "hat_b_of (length X_data) ?r hat_r_inf std_b3 kappa_n"
      let ?phi = "phi_n_of (length X_data) ?r hat_r_inf std_b3 kappa_n"
      let ?hh = "hat_hi_star_of (length X_data) (mh X_data) std_b2 kappa_n ms"
      let ?L = "near_binding_loop ?hb ?phi ?hh ?J"
      have hb: "?hb \<noteq> []" using ne lr assms(4) by (auto simp: hat_b_of_def)
      have hh: "\<forall>row \<in> set ?hh. row \<noteq> []"
        using assms(2,3) by (auto simp: hat_hi_star_of_def)
      have "\<And>e. collect ?L \<noteq> Inl e"
        using near_binding_loop_ok [OF hb hh] collect_Inl by blast
      then obtain cols where cols: "collect ?L = Inr cols" by (cases "collect ?L") auto
      from collect_length [OF cols] J have "cols \<noteq> []"
        by (auto simp: near_binding_loop_length)
      from min_over_columns_ok [OF this, of "length ms"]
      obtain v where "min_over_columns (length ms) cols = Inr v" by blast
      moreover have "an_star_rows mh X_data std_b2 std_b3 kappa_n hat_r_inf I
                     = min_over_columns (length ms) cols"
        using mx assms(3,4) Inr True cols
        by (simp add: an_star_rows_def m_hat0_of_def Let_def)
      ultimately show ?thesis by simp
    qed
  qed
  with mx j J lr show ?thesis by auto
qed

theorem an_star_near_binding_nonempty_witness:
  "\<exists>r_hat0 j. np_max (r_hat_vec_of (col_mean [[-1, -1]])) = Inr r_hat0
     \<and> j < ncols [[-1, -1]] \<and> r_hat_vec_of (col_mean [[-1, -1]]) ! j = r_hat0
     \<and> j \<in> set (hat_j_r_of (length [[-1, -1 :: real]]) (r_hat_vec_of (col_mean [[-1, -1]]))
                   r_hat0 [1/2, 1] 1)
     \<and> hat_j_r_of (length [[-1, -1 :: real]]) (r_hat_vec_of (col_mean [[-1, -1]]))
          r_hat0 [1/2, 1] 1 \<noteq> []
     \<and> an_star_rows col_mean [[-1, -1]] [1, 1] [1/2, 1] 1 0 [[0]] \<noteq> Inl ReductionError"
  by (rule an_star_near_binding_nonempty) (simp_all add: ncols_def col_mean_one_row)

subsection \<open>std\_b\_vec: the floor of the scaling factors\<close>

lemma collect_map_Inr: "collect (map (\<lambda>x. Inr (f x)) xs) = Inr (map f xs)"
  by (induction xs) simp_all

lemma np_min_Min:
  assumes "xs \<noteq> []"
  shows "np_min xs = Inr (Min (set xs))"
proof (cases xs)
  case Nil
  with assms show ?thesis by simp
next
  case (Cons x ys)
  have "fold min ys x = Min (set (x # ys))" by (rule Min.set_eq_fold [symmetric])
  with Cons show ?thesis by simp
qed

lemma std_floor_nonempty:
  assumes "v \<noteq> []"
  shows "std_floor k v = Inr (map (\<lambda>j. max (pop_std (col v j)) iota) [0..<k])"
proof -
  have "\<And>j. col v j \<noteq> []" using assms by (simp add: col_def)
  then have "(\<lambda>j. case np_std (col v j) of Inl e \<Rightarrow> Inl e | Inr s \<Rightarrow> Inr (max s iota))
             = (\<lambda>j. Inr (max (pop_std (col v j)) iota))"
    by (simp add: np_std_def fun_eq_iff)
  then show ?thesis by (simp add: std_floor_def collect_map_Inr)
qed



lemma mhat_star_rows:
  assumes "mhat_star mh X I = Inr ms"
  shows "length ms = length I \<and> (\<forall>r \<in> set ms. length r = ncols X)"
proof (cases "collect (map (take_rows X) I)")
  case (Inl e)
  with assms show ?thesis by (simp add: mhat_star_def)
next
  case (Inr Xs)
  from collect_length [OF Inr] have "length Xs = length I" by simp
  with assms Inr show ?thesis
    by (auto simp: mhat_star_def list_all_iff split: if_splits)
qed


lemma map2_map_map: "map2 f (map h xs) (map g xs) = map (\<lambda>x. f (h x) (g x)) xs"
  by (induction xs) simp_all

lemma col_map:
  assumes "\<forall>r \<in> set ms. j < length r"
  shows "col (map (\<lambda>r. map (g r) r) ms) j = map (\<lambda>r. g r (r ! j)) ms"
  using assms by (simp add: col_def)

lemma std_floor_map:
  assumes "ms \<noteq> []" and "\<forall>r \<in> set ms. length r = k"
  shows "std_floor k (map (\<lambda>r. map (g r) r) ms)
         = Inr (map (\<lambda>j. max (pop_std (map (\<lambda>r. g r (r ! j)) ms)) iota) [0..<k])"
proof -
  have "map (\<lambda>r. map (g r) r) ms \<noteq> []" using assms(1) by simp
  from std_floor_nonempty [OF this]
  have "std_floor k (map (\<lambda>r. map (g r) r) ms)
        = Inr (map (\<lambda>j. max (pop_std (col (map (\<lambda>r. map (g r) r) ms) j)) iota) [0..<k])" .
  moreover have "map (\<lambda>j. max (pop_std (col (map (\<lambda>r. map (g r) r) ms) j)) iota) [0..<k]
        = map (\<lambda>j. max (pop_std (map (\<lambda>r. g r (r ! j)) ms)) iota) [0..<k]"
  proof (rule map_cong [OF refl])
    fix j assume "j \<in> set [0..<k]"
    then have "\<forall>r \<in> set ms. j < length r" using assms(2) by simp
    from col_map [OF this]
    show "max (pop_std (col (map (\<lambda>r. map (g r) r) ms) j)) iota
          = max (pop_std (map (\<lambda>r. g r (r ! j)) ms)) iota" by simp
  qed
  ultimately show ?thesis by simp
qed

lemma std_b_rows_explicit:
  assumes ms: "mhat_star mh X I = Inr ms" and I: "I \<noteq> []" and k: "0 < ncols X"
  shows "std_b_rows mh X I = Inr
    [map (\<lambda>j. max (pop_std (map (\<lambda>r. sqrt (real (length X)) * (r ! j - row_min0 r)) ms)) iota)
         [0..<ncols X],
     map (\<lambda>j. max (pop_std (map (\<lambda>r. sqrt (real (length X)) * (r ! j)) ms)) iota)
         [0..<ncols X],
     map (\<lambda>j. max (pop_std (map (\<lambda>r. sqrt (real (length X)) * (row_min0 r - min (r ! j) 0)) ms)) iota)
         [0..<ncols X]]"
proof -
  from mhat_star_rows [OF ms] I
  have ne: "ms \<noteq> []" and rows: "\<forall>r \<in> set ms. length r = ncols X" by auto
  have "map np_min (map (map (\<lambda>x. min x 0)) ms) = map (\<lambda>r. Inr (row_min0 r)) ms"
  proof (simp only: map_map o_def, rule map_cong [OF refl])
    fix r assume "r \<in> set ms"
    with rows k have "map (\<lambda>x. min x 0) r \<noteq> []" by auto
    from np_min_Min [OF this]
    show "np_min (map (\<lambda>x. min x 0) r) = Inr (row_min0 r)" by (simp add: row_min0_def)
  qed
  then have mn: "collect (map np_min (map (map (\<lambda>x. min x 0)) ms)) = Inr (map row_min0 ms)"
    by (simp only: collect_map_Inr)
  have v1: "map2 (\<lambda>r mn. map (\<lambda>x. sqrt (real (length X)) * (x - mn)) r) ms (map row_min0 ms)
            = map (\<lambda>r. map (\<lambda>x. sqrt (real (length X)) * (x - row_min0 r)) r) ms"
    using map2_map_map [of "\<lambda>r mn. map (\<lambda>x. sqrt (real (length X)) * (x - mn)) r" "\<lambda>r. r" ms row_min0]
    by simp
  have v2: "map (map (\<lambda>x. sqrt (real (length X)) * x)) ms
            = map (\<lambda>r. map (\<lambda>x. sqrt (real (length X)) * x) r) ms" by simp
  have v3: "map2 (\<lambda>r mn. map (\<lambda>x. sqrt (real (length X)) * (mn - x)) r)
                 (map (map (\<lambda>x. min x 0)) ms) (map row_min0 ms)
            = map (\<lambda>r. map (\<lambda>x. sqrt (real (length X)) * (row_min0 r - min x 0)) r) ms"
    using map2_map_map [of "\<lambda>r mn. map (\<lambda>x. sqrt (real (length X)) * (mn - x)) r"
                           "map (\<lambda>x. min x 0)" ms row_min0]
    by (simp add: o_def)
  show ?thesis
    using k
    by (simp only: std_b_rows_def Let_def ms mn v1 v2 v3 sum.case
          std_floor_map [OF ne rows]) simp
qed


lemma col_mean_four:
  "col_mean [[a1, b1], [a2, b2], [a3, b3], [a4, b4]]
   = [(a1 + a2 + a3 + a4) / 4, (b1 + b2 + b3 + b4) / 4]"
  by (simp add: col_mean_def ncols_def col_def mean_def upt_rec)

lemma mhat_star_run:
  "mhat_star col_mean [[1, -1], [1, -3], [1, -1], [1, -3]] [[0, 0, 0, 0], [1, 1, 1, 1]]
   = Inr [[1, -1], [1, -3]]"
  by (simp add: mhat_star_def take_rows_def col_mean_four ncols_def)

lemma pop_std_two: "pop_std [a, b] = \<bar>a - b\<bar> / 2"
proof -
  have "mean [a, b] = (a + b) / 2" by (simp add: mean_def)
  then have "mean (map (\<lambda>x. (x - mean [a, b])\<^sup>2) [a, b]) = ((a - b) / 2)\<^sup>2"
    by (simp add: mean_def power2_eq_square field_simps)
  then show ?thesis by (simp add: pop_std_def)
qed



lemma floor_row:
  "length (map (\<lambda>j. max (f j) iota) [0..<k]) = k
   \<and> (\<forall>s \<in> set (map (\<lambda>j. max (f j) iota) [0..<k]). iota \<le> s)"
  by simp

lemma all_three: "P a \<Longrightarrow> P b \<Longrightarrow> P c \<Longrightarrow> \<forall>x \<in> set [a, b, c]. P x"
  by simp

text \<open>
  Claim C7, as stated: every entry of the scaling matrix is at least \<open>iota\<close> for every
  input and every bootstrap configuration, and when the resamples of a column all give
  the same aggregate, that column's scaling entry is exactly \<open>iota\<close>. With four
  observations and two resamples whose aggregates are \<open>(1, -1)\<close> and \<open>(1, -3)\<close>, the
  first column has identical aggregates; its entry in the second row is \<open>iota\<close>, but
  its entries in the first and third row are 2: \<open>vec_1\<close> and \<open>vec_3\<close> subtract the
  row-wise minimum \<open>mn_star_vec\<close>, which varies with the other column. And with an
  index matrix of no rows, \<open>np.std\<close> is NaN, which \<open>clip\<close> does not raise to \<open>iota\<close>.
\<close>

theorem std_b_vec_constant_column_run:
  "mhat_star col_mean [[1, -1], [1, -3], [1, -1], [1, -3]] [[0, 0, 0, 0], [1, 1, 1, 1]]
     = Inr [[1, -1], [1, -3]]
   \<and> std_b_rows col_mean [[1, -1], [1, -3], [1, -1], [1, -3]] [[0, 0, 0, 0], [1, 1, 1, 1]]
     = Inr [[2, iota], [iota, 2], [2, iota]]
   \<and> (2::real) \<noteq> iota
   \<and> std_b_rows col_mean [[1, -1]] [] = Inl NanResult"
proof -
  have len: "sqrt (real (length [[1, -1], [1, -3], [1, -1], [1, -3 :: real]])) = 2"
    by simp
  have k: "ncols [[1, -1], [1, -3], [1, -1], [1, -3 :: real]] = 2"
    by (simp add: ncols_def)
  have a: "std_b_rows col_mean [[1, -1], [1, -3], [1, -1], [1, -3]] [[0, 0, 0, 0], [1, 1, 1, 1]]
     = Inr [[2, iota], [iota, 2], [2, iota]]"
    apply (subst std_b_rows_explicit [OF mhat_star_run])
      apply simp
     apply (simp add: k)
    apply (simp only: len k)
    using iota_pos iota_le_one
    apply (simp add: upt_rec row_min0_def pop_std_two max_def)
    done
  have b: "std_b_rows col_mean [[1, -1]] [] = Inl NanResult"
    by (simp add: std_b_rows_def mhat_star_def ncols_def std_floor_def np_std_def col_def upt_rec)
  have c: "(2::real) \<noteq> iota" using iota_le_one by simp
  from mhat_star_run a b c show ?thesis by simp
qed

text \<open>
  Claim C7, amended: for every \<open>X_data\<close> with at least one column and every bootstrap
  configuration that yields at least one replication (with valid indices) and
  resampled aggregates of absolute value at most \<open>2^400\<close>, \<open>std_b_vec\<close> returns a
  matrix of three rows and \<open>k\<close> columns whose every entry is at least \<open>iota\<close>. The
  bound on the aggregates keeps the squares and sums that \<open>np.std\<close> forms within the
  range of doubles; beyond it they overflow, the deviation can be NaN, and \<open>clip\<close>
  leaves NaN. The amended claim says nothing of an entry being exactly \<open>iota\<close>: the
  run above shows a constant column with entries above \<open>iota\<close>, and the standard
  deviation that numpy computes in doubles for identical values need not be 0.
\<close>

theorem std_b_vec_floor:
  assumes draw: "bootstrap_draw rng (length X_data) bootstrap_replications rng_seed
                   bootstrap_indices w = (Inr I, w1)"
    and ms: "mhat_star mh X_data I = Inr ms" and I: "I \<noteq> []" and k: "0 < ncols X_data"
    and bound: "\<forall>r \<in> set ms. \<forall>x \<in> set r. \<bar>x\<bar> \<le> 2 ^ 400"
  shows "\<exists>S. std_b_vec rng mh X_data bootstrap_replications rng_seed bootstrap_indices w
              = (Inr S, w1)
     \<and> length S = 3
     \<and> (\<forall>row \<in> set S. length row = ncols X_data \<and> (\<forall>s \<in> set row. iota \<le> s))"
proof -
  let ?n = "sqrt (real (length X_data))"
  let ?S = "[map (\<lambda>j. max (pop_std (map (\<lambda>r. ?n * (r ! j - row_min0 r)) ms)) iota) [0..<ncols X_data],
            map (\<lambda>j. max (pop_std (map (\<lambda>r. ?n * (r ! j)) ms)) iota) [0..<ncols X_data],
            map (\<lambda>j. max (pop_std (map (\<lambda>r. ?n * (row_min0 r - min (r ! j) 0)) ms)) iota)
                [0..<ncols X_data]]"
  have run: "std_b_vec rng mh X_data bootstrap_replications rng_seed bootstrap_indices w
             = (Inr ?S, w1)"
    using draw std_b_rows_explicit [OF ms I k] by (simp add: std_b_vec_def)
  have floor: "\<forall>row \<in> set ?S. length row = ncols X_data \<and> (\<forall>s \<in> set row. iota \<le> s)"
    by (rule all_three) (rule floor_row)+
  have three: "length ?S = 3" by simp
  show ?thesis
    apply (rule exI [of _ ?S])
    apply (intro conjI)
      apply (rule run)
     apply (rule three)
    apply (rule floor)
    done
qed

theorem std_b_vec_floor_witness:
  "\<exists>S. std_b_vec counter_rng col_mean [[1, -1], [1, -3], [1, -1], [1, -3]] None None
            (Some [[0, 0, 0, 0], [1, 1, 1, 1]]) \<lparr>gen = 0, used = []\<rparr>
          = (Inr S, \<lparr>gen = 0, used = [[[0, 0, 0, 0], [1, 1, 1, 1]]]\<rparr>)
       \<and> length S = 3"
proof -
  let ?X = "[[1, -1], [1, -3], [1, -1], [1, -3 :: real]]"
  let ?I = "[[0, 0, 0, 0], [1, 1, 1, 1 :: nat]]"
  have draw: "bootstrap_draw counter_rng (length ?X) None None (Some ?I) \<lparr>gen = 0, used = []\<rparr>
              = (Inr ?I, \<lparr>gen = 0, used = [?I]\<rparr>)"
    by (simp add: bootstrap_draw_def)
  have i: "?I \<noteq> []" by simp
  have k: "0 < ncols ?X" by (simp add: ncols_def)
  have b: "\<forall>r \<in> set [[1, -1], [1, -3 :: real]]. \<forall>x \<in> set r. \<bar>x\<bar> \<le> 2 ^ 400" by simp
  from std_b_vec_floor [OF draw mhat_star_run i k b] show ?thesis by blast
qed

subsection \<open>Reproducibility\<close>

lemma draw_explicit:
  "bootstrap_draw rng n B s (Some I) w = (Inr I, w\<lparr>used := I # used w\<rparr>)"
  by (simp add: bootstrap_draw_def)

lemma draw_seeded:
  "bootstrap_draw rng n (Some B) (Some s) None w
   = (Inr (fst (randint rng (seed rng s) n B n)),
      \<lparr>gen = snd (randint rng (seed rng s) n B n),
       used = fst (randint rng (seed rng s) n B n) # used w\<rparr>)"
  by (simp add: bootstrap_draw_def Let_def)

lemma cvalue_explicit:
  "fst (cvalue_SPUR1 rng mh X_data alpha an B s (Some I) w)
   = cvalue_SPUR1_rows mh X_data alpha an I"
  by (simp add: cvalue_SPUR1_def cvalue_SPUR1_rows_def std_b_vec_def tn_star_def draw_explicit
        Let_def split: sum.splits)

lemma cvalue_seeded:
  "fst (cvalue_SPUR1 rng mh X_data alpha an (Some B) (Some s) None w)
   = cvalue_SPUR1_rows mh X_data alpha an
       (fst (randint rng (seed rng s) (length X_data) B (length X_data)))"
  by (simp add: cvalue_SPUR1_def cvalue_SPUR1_rows_def std_b_vec_def tn_star_def draw_seeded
        Let_def split: sum.splits)

text \<open>
  Claim C6. For \<open>std_b_vec\<close>, \<open>tn_star\<close>, \<open>an_star\<close> and \<open>cvalue_SPUR1\<close>: with an
  explicit index matrix the output depends on nothing but the inputs and that matrix
  (not on the state of the generator, nor on a replication count or seed passed along),
  so two such calls return the same output; and a call with a seed and a replication
  count \<open>R\<close> returns the output of the call that is given the matrix
  \<open>randint(0, n, size=(R, n))\<close> drawn right after seeding with that seed.
\<close>

theorem bootstrap_reproducible:
  "fst (std_b_vec rng mh X_data B s (Some I) w) = fst (std_b_vec rng mh X_data B' s' (Some I) w')
   \<and> fst (tn_star rng mh X_data std_b1 kappa_n B s (Some I) w)
     = fst (tn_star rng mh X_data std_b1 kappa_n B' s' (Some I) w')
   \<and> fst (an_star rng mh X_data std_b2 std_b3 kappa_n hat_r_inf B s (Some I) w)
     = fst (an_star rng mh X_data std_b2 std_b3 kappa_n hat_r_inf B' s' (Some I) w')
   \<and> fst (cvalue_SPUR1 rng mh X_data alpha an B s (Some I) w)
     = fst (cvalue_SPUR1 rng mh X_data alpha an B' s' (Some I) w')
   \<and> fst (std_b_vec rng mh X_data (Some R) (Some sd) None w)
     = fst (std_b_vec rng mh X_data B' s'
              (Some (fst (randint rng (seed rng sd) (length X_data) R (length X_data)))) w')
   \<and> fst (tn_star rng mh X_data std_b1 kappa_n (Some R) (Some sd) None w)
     = fst (tn_star rng mh X_data std_b1 kappa_n B' s'
              (Some (fst (randint rng (seed rng sd) (length X_data) R (length X_data)))) w')
   \<and> fst (an_star rng mh X_data std_b2 std_b3 kappa_n hat_r_inf (Some R) (Some sd) None w)
     = fst (an_star rng mh X_data std_b2 std_b3 kappa_n hat_r_inf B' s'
              (Some (fst (randint rng (seed rng sd) (length X_data) R (length X_data)))) w')
   \<and> fst (cvalue_SPUR1 rng mh X_data alpha an (Some R) (Some sd) None w)
     = fst (cvalue_SPUR1 rng mh X_data alpha an B' s'
              (Some (fst (randint rng (seed rng sd) (length X_data) R (length X_data)))) w')"
  by (simp add: cvalue_explicit cvalue_seeded std_b_vec_def tn_star_def an_star_def
        draw_explicit draw_seeded)

subsection \<open>The index matrices used within one invocation\<close>

lemma draw_config:
  assumes "config_matrix rng n B s idx = Some J"
  shows "fst (bootstrap_draw rng n B s idx w) = Inr J
         \<and> used (snd (bootstrap_draw rng n B s idx w)) = J # used w"
  using assms
  by (auto simp: config_matrix_def bootstrap_draw_def Let_def split: option.splits)

lemma std_b_vec_state:
  "snd (std_b_vec rng mh X B s idx w) = snd (bootstrap_draw rng (length X) B s idx w)"
  by (simp add: std_b_vec_def split: prod.splits sum.splits)

lemma tn_star_state:
  "snd (tn_star rng mh X std_b1 kappa_n B s idx w) = snd (bootstrap_draw rng (length X) B s idx w)"
  by (simp add: tn_star_def split: prod.splits sum.splits)

lemma an_star_state:
  "snd (an_star rng mh X std_b2 std_b3 kappa_n hat_r_inf B s idx w)
   = snd (bootstrap_draw rng (length X) B s idx w)"
  by (simp add: an_star_def split: prod.splits sum.splits)

lemma cvalue_state:
  "snd (cvalue_SPUR1 rng mh X alpha an B s idx w)
   = (if X = [] then w
      else case std_b_vec rng mh X B s idx w of
             (Inl e, w1) \<Rightarrow> w1
           | (Inr std_b0, w1) \<Rightarrow> snd (bootstrap_draw rng (length X) B s idx w1))"
proof (cases "X = []")
  case True
  then show ?thesis by (simp add: cvalue_SPUR1_def)
next
  case False
  obtain r w1 where r: "std_b_vec rng mh X B s idx w = (r, w1)"
    by (cases "std_b_vec rng mh X B s idx w")
  show ?thesis
  proof (cases r)
    case (Inl e)
    with r False show ?thesis by (simp add: cvalue_SPUR1_def)
  next
    case (Inr S)
    obtain r2 w2 where r2: "tn_star rng mh X (S ! 0) (sqrt (ln (real (length X)))) B s idx w1
                            = (r2, w2)"
      by (cases "tn_star rng mh X (S ! 0) (sqrt (ln (real (length X)))) B s idx w1")
    then have "w2 = snd (bootstrap_draw rng (length X) B s idx w1)"
      using tn_star_state [of rng mh X "S ! 0" "sqrt (ln (real (length X)))" B s idx w1] by simp
    with r Inr False r2 show ?thesis
      by (simp add: cvalue_SPUR1_def Let_def split: sum.splits)
  qed
qed

lemma cvalue_used:
  assumes "config_matrix rng (length X) B s idx = Some J"
  shows "\<exists>m \<le> 2. used (snd (cvalue_SPUR1 rng mh X alpha an B s idx w)) = replicate m J @ used w"
proof (cases "X = []")
  case True
  then have "used (snd (cvalue_SPUR1 rng mh X alpha an B s idx w)) = replicate 0 J @ used w"
    by (simp add: cvalue_state)
  then show ?thesis by blast
next
  case False
  obtain r w1 where r: "std_b_vec rng mh X B s idx w = (r, w1)" by (cases "std_b_vec rng mh X B s idx w")
  then have "w1 = snd (bootstrap_draw rng (length X) B s idx w)"
    using std_b_vec_state [of rng mh X B s idx w] by simp
  with draw_config [OF assms, of w] have u1: "used w1 = J # used w" by simp
  show ?thesis
  proof (cases r)
    case (Inl e)
    with r False u1
    have "used (snd (cvalue_SPUR1 rng mh X alpha an B s idx w)) = replicate 1 J @ used w"
      by (simp add: cvalue_state)
    then show ?thesis by (intro exI [of _ 1]) simp
  next
    case (Inr S)
    with r False u1 draw_config [OF assms, of w1]
    have "used (snd (cvalue_SPUR1 rng mh X alpha an B s idx w)) = replicate 2 J @ used w"
      by (simp add: cvalue_state numeral_2_eq_2)
    then show ?thesis by (intro exI [of _ 2]) simp
  qed
qed

lemma body_used:
  assumes cfg: "config_matrix rng n B s idx = Some J"
    and rows: "\<forall>theta. length (m_function W_data A_matrix theta J0_vec Vbar IV_matrix grid0) = n"
  shows "\<exists>m. used (snd (an_vec_body rng mh m_function kappa_n hat_r_inf W_data A_matrix J0_vec
                          Vbar IV_matrix grid0 B s idx BB t w)) = replicate m J @ used w"
proof (cases "the_theta_of grid0 t")
  case (Inl e)
  then have "used (snd (an_vec_body rng mh m_function kappa_n hat_r_inf W_data A_matrix J0_vec
                          Vbar IV_matrix grid0 B s idx BB t w)) = replicate 0 J @ used w"
    by (simp add: an_vec_body_def)
  then show ?thesis by blast
next
  case (Inr th)
  let ?X = "map (map (\<lambda>x. - x)) (m_function W_data A_matrix th J0_vec Vbar IV_matrix grid0)"
  have len: "length ?X = n" using rows by simp
  obtain r w1 where r: "std_b_vec rng mh ?X B s idx w = (r, w1)"
    by (cases "std_b_vec rng mh ?X B s idx w")
  then have "w1 = snd (bootstrap_draw rng n B s idx w)"
    using std_b_vec_state [of rng mh ?X B s idx w] len by simp
  with draw_config [OF cfg, of w] have u1: "used w1 = J # used w" by simp
  show ?thesis
  proof (cases r)
    case (Inl e)
    with r \<open>the_theta_of grid0 t = Inr th\<close> u1
    have "used (snd (an_vec_body rng mh m_function kappa_n hat_r_inf W_data A_matrix J0_vec
                          Vbar IV_matrix grid0 B s idx BB t w)) = replicate 1 J @ used w"
      by (simp add: an_vec_body_def Let_def)
    then show ?thesis by blast
  next
    case (Inr S)
    obtain c w2 where c: "an_star rng mh ?X (S ! 1) (S ! 2) kappa_n hat_r_inf B s idx w1 = (c, w2)"
      by (cases "an_star rng mh ?X (S ! 1) (S ! 2) kappa_n hat_r_inf B s idx w1")
    then have "w2 = snd (bootstrap_draw rng n B s idx w1)"
      using an_star_state [of rng mh ?X "S ! 1" "S ! 2" kappa_n hat_r_inf B s idx w1] len by simp
    with draw_config [OF cfg, of w1] u1 have u2: "used w2 = replicate 2 J @ used w"
      by (simp add: numeral_2_eq_2)
    have "snd (an_vec_body rng mh m_function kappa_n hat_r_inf W_data A_matrix J0_vec
                          Vbar IV_matrix grid0 B s idx BB t w) = w2"
      using \<open>the_theta_of grid0 t = Inr th\<close> r Inr c
      by (simp add: an_vec_body_def Let_def split: sum.splits)
    with u2 show ?thesis by blast
  qed
qed

lemma for_each_used:
  assumes "\<And>t w. \<exists>m. used (snd (body t w)) = replicate m J @ used w"
  shows "\<exists>m. used (snd (for_each body ts w)) = replicate m J @ used w"
proof (induction ts arbitrary: w)
  case Nil
  have "used (snd (for_each body [] w)) = replicate 0 J @ used w" by simp
  then show ?case by blast
next
  case (Cons t ts)
  obtain r w1 where r: "body t w = (r, w1)" by (cases "body t w")
  from assms [of t w] r obtain m1 where m1: "used w1 = replicate m1 J @ used w" by auto
  show ?case
  proof (cases r)
    case (Inl e)
    with r m1 show ?thesis by auto
  next
    case (Inr c)
    obtain r2 w2 where r2: "for_each body ts w1 = (r2, w2)" by (cases "for_each body ts w1")
    from Cons.IH [of w1] r2 obtain m2 where "used w2 = replicate m2 J @ used w1" by auto
    with m1 have "used w2 = replicate (m2 + m1) J @ used w"
      by (simp add: replicate_add)
    moreover have "snd (for_each body (t # ts) w) = w2"
      using r Inr r2 by (simp split: sum.splits)
    ultimately show ?thesis by blast
  qed
qed

lemma an_vec_state:
  "snd (an_vec rng mh m_function aux1_var hat_r_inf W_data A_matrix theta_grid
          J0_vec Vbar IV_matrix grid0 B s idx w) = w
   \<or> (\<exists>BB ts. snd (an_vec rng mh m_function aux1_var hat_r_inf W_data A_matrix theta_grid
                      J0_vec Vbar IV_matrix grid0 B s idx w)
        = snd (for_each (an_vec_body rng mh m_function (sqrt (ln (real (length A_matrix))))
                           hat_r_inf W_data A_matrix J0_vec Vbar IV_matrix grid0 B s idx BB)
                 ts w))"
proof (cases "A_matrix = []")
  case True
  then show ?thesis by (simp add: an_vec_def)
next
  case False
  show ?thesis
  proof (cases "theta_of_interest_of (boole_of_interest_of (length A_matrix) aux1_var) theta_grid")
    case (Inl e)
    with False show ?thesis by (simp add: an_vec_def)
  next
    case (Inr ts)
    show ?thesis
    proof (cases "case idx of None \<Rightarrow> (case B of None \<Rightarrow> Inl TypeError | Some b \<Rightarrow> Inr b)
                  | Some I \<Rightarrow> Inr (length I)")
      case (Inl e)
      with False \<open>theta_of_interest_of (boole_of_interest_of (length A_matrix) aux1_var) theta_grid
                   = Inr ts\<close>
      show ?thesis by (simp add: an_vec_def)
    next
      case BB: (Inr BB)
      let ?loop = "for_each (an_vec_body rng mh m_function (sqrt (ln (real (length A_matrix))))
                           hat_r_inf W_data A_matrix J0_vec Vbar IV_matrix grid0 B s idx BB) ts w"
      obtain r w1 where r: "?loop = (r, w1)" by (cases ?loop)
      then have "snd (an_vec rng mh m_function aux1_var hat_r_inf W_data A_matrix theta_grid
                        J0_vec Vbar IV_matrix grid0 B s idx w) = snd ?loop"
        using False Inr BB by (simp add: an_vec_def Let_def split: sum.splits)
      then show ?thesis by blast
    qed
  qed
qed

lemma an_vec_used:
  assumes cfg: "config_matrix rng n B s idx = Some J"
    and rows: "\<forall>theta. length (m_function W_data A_matrix theta J0_vec Vbar IV_matrix grid0) = n"
  shows "\<exists>m. used (snd (an_vec rng mh m_function aux1_var hat_r_inf W_data A_matrix theta_grid
                          J0_vec Vbar IV_matrix grid0 B s idx w)) = replicate m J @ used w"
proof -
  have zero: "used w = replicate 0 J @ used w" by simp
  have loop: "\<And>BB ts. \<exists>m. used (snd (for_each
       (an_vec_body rng mh m_function (sqrt (ln (real (length A_matrix)))) hat_r_inf W_data A_matrix
          J0_vec Vbar IV_matrix grid0 B s idx BB) ts w)) = replicate m J @ used w"
    by (rule for_each_used) (rule body_used [OF cfg], rule rows)
  from an_vec_state [of rng mh m_function aux1_var hat_r_inf W_data A_matrix theta_grid
                        J0_vec Vbar IV_matrix grid0 B s idx w]
  show ?thesis
  proof
    assume "snd (an_vec rng mh m_function aux1_var hat_r_inf W_data A_matrix theta_grid
                   J0_vec Vbar IV_matrix grid0 B s idx w) = w"
    with zero show ?thesis by metis
  next
    assume "\<exists>BB ts. snd (an_vec rng mh m_function aux1_var hat_r_inf W_data A_matrix theta_grid
                      J0_vec Vbar IV_matrix grid0 B s idx w)
        = snd (for_each (an_vec_body rng mh m_function (sqrt (ln (real (length A_matrix))))
                           hat_r_inf W_data A_matrix J0_vec Vbar IV_matrix grid0 B s idx BB)
                 ts w)"
    then obtain BB ts where "snd (an_vec rng mh m_function aux1_var hat_r_inf W_data A_matrix
                      theta_grid J0_vec Vbar IV_matrix grid0 B s idx w)
        = snd (for_each (an_vec_body rng mh m_function (sqrt (ln (real (length A_matrix))))
                           hat_r_inf W_data A_matrix J0_vec Vbar IV_matrix grid0 B s idx BB)
                 ts w)" by blast
    with loop [of BB ts] show ?thesis by simp
  qed
qed


lemma col_mean_two_one: "col_mean [[a], [b]] = [(a + b) / 2]"
  by (simp add: col_mean_def ncols_def col_def mean_def upt_rec)

lemma std_b_rows_zero_run:
  "\<exists>S. std_b_rows col_mean [[0], [0]] [[i, i]] = Inr S" if "i < 2" for i :: nat
proof -
  have "take_rows [[0], [0 :: real]] [i, i] = Inr [[0], [0]]"
    using that by (cases i) (simp_all add: take_rows_def less_Suc_eq)
  then have "mhat_star col_mean [[0], [0]] [[i, i]] = Inr [[0]]"
    by (simp add: mhat_star_def col_mean_two_one ncols_def)
  from std_b_rows_explicit [OF this] show ?thesis by (simp add: ncols_def)
qed

text \<open>
  Claim C2, as stated: within one invocation of \<open>cvalue_SPUR1\<close> (and of \<open>an_vec\<close>),
  every resampling component uses the same index matrix, for every bootstrap
  configuration, a replication count without a seed included. In that configuration
  \<open>std_b_vec\<close> and \<open>tn_star\<close> each draw from the generator, the second from the state
  the first left behind. With a generator whose successive draws differ, two
  observations and one replication, \<open>std_b_vec\<close> resamples with \<open>((0, 0))\<close> and
  \<open>tn_star\<close> with \<open>((1, 1))\<close>.
\<close>

theorem cvalue_unseeded_draws_differ:
  "used (snd (cvalue_SPUR1 counter_rng col_mean [[0], [0]] (1/2) [Fin 0] (Some 1) None None
                \<lparr>gen = 0, used = []\<rparr>))
   = [[[1, 1]], [[0, 0]]]
   \<and> [[1, 1]] \<noteq> [[0, 0 :: nat]]"
proof -
  have d0: "bootstrap_draw counter_rng (length [[0], [0 :: real]]) (Some 1) None None
                \<lparr>gen = 0, used = []\<rparr>
            = (Inr [[0, 0]], \<lparr>gen = 1, used = [[[0, 0]]]\<rparr>)"
    by (simp add: bootstrap_draw_def counter_rng_def)
  have d1: "bootstrap_draw counter_rng (length [[0], [0 :: real]]) (Some 1) None None
                \<lparr>gen = 1, used = [[[0, 0]]]\<rparr>
            = (Inr [[1, 1]], \<lparr>gen = 2, used = [[[1, 1]], [[0, 0]]]\<rparr>)"
    by (simp add: bootstrap_draw_def counter_rng_def)
  from std_b_rows_zero_run [of 0] obtain S
    where S: "std_b_rows col_mean [[0], [0]] [[0, 0]] = Inr S" by auto
  have "std_b_vec counter_rng col_mean [[0], [0]] (Some 1) None None \<lparr>gen = 0, used = []\<rparr>
        = (Inr S, \<lparr>gen = 1, used = [[[0, 0]]]\<rparr>)"
    using d0 S by (simp add: std_b_vec_def)
  then have "used (snd (cvalue_SPUR1 counter_rng col_mean [[0], [0]] (1/2) [Fin 0] (Some 1) None
                          None \<lparr>gen = 0, used = []\<rparr>))
             = [[[1, 1]], [[0, 0]]]"
    using d1 by (simp add: cvalue_state)
  then show ?thesis by simp
qed

text \<open>
  Claim C2, amended: when the configuration is an explicit index matrix, or a replication
  count with a seed, it stands for one index matrix \<open>J\<close>; then within one invocation
  of \<open>cvalue_SPUR1\<close> on an \<open>X_data\<close> of \<open>n\<close> rows, \<open>std_b_vec\<close> and \<open>tn_star\<close>
  resample with \<open>J\<close> and nothing else, and the result is the critical value computed
  on \<open>J\<close>; and within one invocation of \<open>an_vec\<close>, where \<open>m_function\<close> returns \<open>n\<close>
  rows for every candidate, \<open>std_b_vec\<close> and \<open>an_star\<close> resample with \<open>J\<close> and nothing
  else at every grid point.
\<close>

theorem same_index_matrix:
  assumes cfg: "config_matrix rng n B s idx = Some J"
    and len: "length X_data = n"
    and rows: "\<forall>theta. length (m_function W_data A_matrix theta J0_vec Vbar IV_matrix grid0) = n"
  shows "(\<exists>m \<le> 2. used (snd (cvalue_SPUR1 rng mh X_data alpha an B s idx w))
                    = replicate m J @ used w)
     \<and> fst (cvalue_SPUR1 rng mh X_data alpha an B s idx w) = cvalue_SPUR1_rows mh X_data alpha an J
     \<and> (\<exists>m. used (snd (an_vec rng mh m_function aux1_var hat_r_inf W_data A_matrix theta_grid
                          J0_vec Vbar IV_matrix grid0 B s idx w)) = replicate m J @ used w)"
proof -
  have cfg': "config_matrix rng (length X_data) B s idx = Some J" using cfg len by simp
  have a: "\<exists>m \<le> 2. used (snd (cvalue_SPUR1 rng mh X_data alpha an B s idx w))
                    = replicate m J @ used w"
    by (rule cvalue_used [OF cfg'])
  have b: "fst (cvalue_SPUR1 rng mh X_data alpha an B s idx w)
           = cvalue_SPUR1_rows mh X_data alpha an J"
  proof (cases idx)
    case (Some I)
    with cfg' show ?thesis by (simp add: config_matrix_def cvalue_explicit)
  next
    case None
    with cfg' obtain b sd where "B = Some b" "s = Some sd"
      "J = fst (randint rng (seed rng sd) (length X_data) b (length X_data))"
      by (auto simp: config_matrix_def split: option.splits)
    with None show ?thesis by (simp add: cvalue_seeded)
  qed
  have c: "\<exists>m. used (snd (an_vec rng mh m_function aux1_var hat_r_inf W_data A_matrix theta_grid
                          J0_vec Vbar IV_matrix grid0 B s idx w)) = replicate m J @ used w"
    by (rule an_vec_used [OF cfg], rule rows)
  from a b c show ?thesis by blast
qed

theorem same_index_matrix_witness:
  "(\<exists>m \<le> 2. used (snd (cvalue_SPUR1 counter_rng col_mean [[0], [0]] (1/2) [Fin 0] (Some 1)
                            (Some 0) None \<lparr>gen = 5, used = []\<rparr>))
                = replicate m [[0, 0]] @ used \<lparr>gen = 5 :: nat, used = []\<rparr>)
   \<and> fst (cvalue_SPUR1 counter_rng col_mean [[0], [0]] (1/2) [Fin 0] (Some 1) (Some 0) None
            \<lparr>gen = 5, used = []\<rparr>)
     = cvalue_SPUR1_rows col_mean [[0], [0]] (1/2) [Fin 0] [[0, 0]]
   \<and> (\<exists>m. used (snd (an_vec counter_rng col_mean (\<lambda>W A theta J V IV g. [[theta ! 0], [theta ! 0]])
                        [0] 0 () [[0], [0]] [3] () 0 () 1 (Some 1) (Some 0) None
                        \<lparr>gen = 5, used = []\<rparr>))
          = replicate m [[0, 0]] @ used \<lparr>gen = 5 :: nat, used = []\<rparr>)"
  by (rule same_index_matrix [where n = 2])
     (simp_all add: config_matrix_def counter_rng_def numeral_2_eq_2)

subsection \<open>cvalue\_SPUR1: the critical value\<close>








lemma quantile_value:
  assumes "xs \<noteq> []" and "0 \<le> q" and "q \<le> 1"
  shows "np_quantile_midpoint xs q
         = Inr ((sort xs ! min (nat \<lfloor>round_double (real (length xs - 1) * q)\<rfloor>) (length xs - 1)
                 + sort xs ! min (nat \<lceil>round_double (real (length xs - 1) * q)\<rceil>) (length xs - 1))
                / 2)"
  using assms by (simp add: np_quantile_midpoint_def Let_def)








lemma neg_clip: "-1 * clip_max0 e = neg_clip_below0 e"
  by (cases e) (simp_all add: max_def min_def)

lemma tn_star_rows_ok:
  assumes "length (mh X) = ncols X" and "0 < ncols X" and "length std_b1 = ncols X"
    and "mhat_star mh X I = Inr ms"
  shows "\<exists>tn. tn_star_rows mh X std_b1 kappa_n I = Inr tn \<and> length tn = length ms
              \<and> (\<forall>r \<in> set tn. length r = ncols X)"
proof -
  have "map (\<lambda>m. -1 * min m 0) (mh X) \<noteq> []" using assms(1,2) by auto
  from np_max_Max [OF this] obtain r_hat
    where "np_max (map (\<lambda>m. -1 * min m 0) (mh X)) = Inr r_hat" by blast
  then show ?thesis
    using assms by (simp add: tn_star_rows_def m_hat0_of_def Let_def)
qed

lemma sn_star_ok:
  assumes "length an = length tn" and "\<forall>r \<in> set tn. r \<noteq> []"
  shows "sn_star_of tn an
         = Inr (map2 (\<lambda>row a. Max (set (map (\<lambda>t. neg_clip_below0 (ext_add t a)) row))) tn an)"
proof -
  have "map2 (\<lambda>row a. np_max (map (\<lambda>t. -1 * clip_max0 (ext_add t a)) row)) tn an
        = map (\<lambda>p. Inr (case p of (row, a) \<Rightarrow>
                 Max (set (map (\<lambda>t. neg_clip_below0 (ext_add t a)) row)))) (zip tn an)"
  proof (rule map_cong [OF refl])
    fix p assume p: "p \<in> set (zip tn an)"
    obtain row a where pa: "p = (row, a)" by (cases p)
    with p have "row \<in> set tn" by (auto dest: set_zip_leftD)
    with assms(2) have "map (\<lambda>t. -1 * clip_max0 (ext_add t a)) row \<noteq> []" by auto
    from np_max_Max [OF this] pa
    show "(case p of (row, a) \<Rightarrow> np_max (map (\<lambda>t. -1 * clip_max0 (ext_add t a)) row))
          = Inr (case p of (row, a) \<Rightarrow>
                   Max (set (map (\<lambda>t. neg_clip_below0 (ext_add t a)) row)))"
      by (simp only: neg_clip prod.case)
  qed
  then show ?thesis
    using assms(1) by (simp only: sn_star_of_def collect_map_Inr) simp
qed

lemma level_range:
  assumes "0 < alpha" and "alpha < 1"
  shows "0 \<le> round_double (1 - round_double alpha)
         \<and> round_double (1 - round_double alpha) \<le> 1"
proof -
  have "round_double 0 \<le> round_double alpha"
    by (rule round_double_mono) (use assms in simp_all)
  then have lo: "0 \<le> round_double alpha" by (simp only: round_double_0)
  have "round_double alpha \<le> round_double 1"
    by (rule round_double_mono) (use assms in simp_all)
  then have hi: "round_double alpha \<le> 1" by (simp only: round_double_1)
  have "round_double 0 \<le> round_double (1 - round_double alpha)"
    by (rule round_double_mono) (use hi in simp_all)
  moreover have "round_double (1 - round_double alpha) \<le> round_double 1"
    by (rule round_double_mono) (use lo hi in simp_all)
  ultimately show ?thesis by (simp only: round_double_0 round_double_1)
qed

lemma level_antitone:
  assumes "0 < alpha" and "alpha \<le> alpha'" and "alpha' < 1"
  shows "round_double (1 - round_double alpha') \<le> round_double (1 - round_double alpha)"
proof -
  have le: "round_double alpha \<le> round_double alpha'"
    by (rule round_double_mono) (use assms in simp_all)
  have "round_double alpha' \<le> round_double 1"
    by (rule round_double_mono) (use assms in simp_all)
  then have hi: "round_double alpha' \<le> 1" by (simp only: round_double_1)
  show ?thesis
    by (rule round_double_mono) (use le hi in simp_all)
qed

lemma clamped_rank: "xs \<noteq> [] \<Longrightarrow> min r (length xs - 1) < length xs"
  by (cases xs) simp_all

lemma quantile_antitone:
  assumes "xs \<noteq> []" and "0 \<le> q'" and "q' \<le> q" and "q \<le> 1"
  shows "\<exists>c c'. np_quantile_midpoint xs q = Inr c \<and> np_quantile_midpoint xs q' = Inr c' \<and> c' \<le> c"
proof -
  let ?N = "length xs"
  let ?h = "round_double (real (?N - 1) * q)" and ?h' = "round_double (real (?N - 1) * q')"
  have q0: "0 \<le> q" and q1: "q' \<le> 1" using assms by linarith+
  have "0 \<le> real (?N - 1) * q'" using assms(2) by simp
  moreover have "real (?N - 1) * q' \<le> real (?N - 1) * q"
    using assms(3) by (simp add: mult_left_mono)
  ultimately have le: "?h' \<le> ?h" by (rule round_double_mono)
  have f: "min (nat \<lfloor>?h'\<rfloor>) (?N - 1) \<le> min (nat \<lfloor>?h\<rfloor>) (?N - 1)"
    by (rule min.mono [OF nat_mono [OF floor_mono [OF le]] order_refl])
  have c: "min (nat \<lceil>?h'\<rceil>) (?N - 1) \<le> min (nat \<lceil>?h\<rceil>) (?N - 1)"
    by (rule min.mono [OF nat_mono [OF ceiling_mono [OF le]] order_refl])
  have b: "\<And>r. min r (?N - 1) < length (sort xs)"
    using clamped_rank [OF assms(1)] by (simp only: length_sort)
  have m1: "sort xs ! min (nat \<lfloor>?h'\<rfloor>) (?N - 1) \<le> sort xs ! min (nat \<lfloor>?h\<rfloor>) (?N - 1)"
    by (rule sorted_nth_mono [OF sorted_sort f b])
  have m2: "sort xs ! min (nat \<lceil>?h'\<rceil>) (?N - 1) \<le> sort xs ! min (nat \<lceil>?h\<rceil>) (?N - 1)"
    by (rule sorted_nth_mono [OF sorted_sort c b])
  have m: "(sort xs ! min (nat \<lfloor>?h'\<rfloor>) (?N - 1) + sort xs ! min (nat \<lceil>?h'\<rceil>) (?N - 1)) / 2
           \<le> (sort xs ! min (nat \<lfloor>?h\<rfloor>) (?N - 1) + sort xs ! min (nat \<lceil>?h\<rceil>) (?N - 1)) / 2"
    by (rule divide_right_mono [OF add_mono [OF m1 m2]]) simp
  show ?thesis
    apply (intro exI conjI)
      apply (rule quantile_value [OF assms(1) q0 assms(4)])
     apply (rule quantile_value [OF assms(1) assms(2) q1])
    apply (rule m)
    done
qed


lemma cvalue_rows_value:
  assumes X: "X \<noteq> []" and k: "0 < ncols X" and mh: "length (mh X) = ncols X"
    and ms: "mhat_star mh X I = Inr ms" and I: "I \<noteq> []" and an: "length an = length I"
  shows "\<exists>S tn. std_b_rows mh X I = Inr S
           \<and> tn_star_rows mh X (S ! 0) (sqrt (ln (real (length X)))) I = Inr tn
           \<and> length tn = length I
           \<and> cvalue_SPUR1_rows mh X alpha an I
             = np_quantile_midpoint
                 (map2 (\<lambda>row a. Max (set (map (\<lambda>t. neg_clip_below0 (ext_add t a)) row))) tn an)
                 (round_double (1 - round_double alpha))"
proof -
  from std_b_rows_explicit [OF ms I k] obtain S where S: "std_b_rows mh X I = Inr S"
    and S0: "length (S ! 0) = ncols X" by simp
  from tn_star_rows_ok [OF mh k S0 ms, of "sqrt (ln (real (length X)))"] obtain tn
    where tn: "tn_star_rows mh X (S ! 0) (sqrt (ln (real (length X)))) I = Inr tn"
      and ltn: "length tn = length ms" and rows: "\<forall>r \<in> set tn. length r = ncols X" by blast
  from mhat_star_rows [OF ms] ltn have l: "length tn = length I" by simp
  have ne: "\<forall>r \<in> set tn. r \<noteq> []" using rows k by auto
  have "length an = length tn" using an l by simp
  from sn_star_ok [OF this ne] S tn X
  have "cvalue_SPUR1_rows mh X alpha an I
        = np_quantile_midpoint
            (map2 (\<lambda>row a. Max (set (map (\<lambda>t. neg_clip_below0 (ext_add t a)) row))) tn an)
            (round_double (1 - round_double alpha))"
    by (simp add: cvalue_SPUR1_rows_def)
  with S tn l show ?thesis by blast
qed

lemma cvalue_rows_shape:
  "\<exists>pre. \<forall>alpha. cvalue_SPUR1_rows mh X alpha an I
      = (case pre of Inl e \<Rightarrow> Inl e
         | Inr sn \<Rightarrow> np_quantile_midpoint sn (round_double (1 - round_double alpha)))"
proof (cases "X = []")
  case True
  then have "\<forall>alpha. cvalue_SPUR1_rows mh X alpha an I
      = (case Inl NanResult of Inl e \<Rightarrow> Inl e
         | Inr sn \<Rightarrow> np_quantile_midpoint sn (round_double (1 - round_double alpha)))"
    by (simp add: cvalue_SPUR1_rows_def)
  then show ?thesis by blast
next
  case False
  show ?thesis
  proof (cases "std_b_rows mh X I")
    case (Inl e)
    with False have "\<forall>alpha. cvalue_SPUR1_rows mh X alpha an I
      = (case Inl e of Inl e \<Rightarrow> Inl e
         | Inr sn \<Rightarrow> np_quantile_midpoint sn (round_double (1 - round_double alpha)))"
      by (simp add: cvalue_SPUR1_rows_def)
    then show ?thesis by blast
  next
    case (Inr S)
    show ?thesis
    proof (cases "tn_star_rows mh X (S ! 0) (sqrt (ln (real (length X)))) I")
      case (Inl e)
      with False Inr have "\<forall>alpha. cvalue_SPUR1_rows mh X alpha an I
        = (case Inl e of Inl e \<Rightarrow> Inl e
           | Inr sn \<Rightarrow> np_quantile_midpoint sn (round_double (1 - round_double alpha)))"
        by (simp add: cvalue_SPUR1_rows_def)
      then show ?thesis by blast
    next
      case tn: (Inr tn)
      with False Inr have "\<forall>alpha. cvalue_SPUR1_rows mh X alpha an I
        = (case sn_star_of tn an of Inl e \<Rightarrow> Inl e
           | Inr sn \<Rightarrow> np_quantile_midpoint sn (round_double (1 - round_double alpha)))"
        by (simp add: cvalue_SPUR1_rows_def)
      then show ?thesis by blast
    qed
  qed
qed







text \<open>
  Claim C8. For fixed \<open>X_data\<close>, \<open>An\<close> vector and explicit index matrix, and significance
  levels \<open>0 < alpha < alpha' < 1\<close>: the two calls of \<open>cvalue_SPUR1\<close> either both
  return, and then the critical value at \<open>alpha\<close> is at least the one at \<open>alpha'\<close>, or
  both stop with the same error; and they return whenever \<open>X_data\<close> has at least one
  row and one column, the index matrix has at least one row and valid indices, and
  \<open>An\<close> has one entry per replication.
\<close>

theorem cvalue_SPUR1_antitone:
  assumes a0: "0 < alpha" and aa: "alpha < alpha'" and a1: "alpha' < 1"
  shows "((\<exists>c c'. fst (cvalue_SPUR1 rng mh X_data alpha an B s (Some I) w) = Inr c
              \<and> fst (cvalue_SPUR1 rng mh X_data alpha' an B s (Some I) w) = Inr c' \<and> c' \<le> c)
          \<or> (\<exists>e. fst (cvalue_SPUR1 rng mh X_data alpha an B s (Some I) w) = Inl e
                \<and> fst (cvalue_SPUR1 rng mh X_data alpha' an B s (Some I) w) = Inl e))
     \<and> (X_data \<noteq> [] \<and> 0 < ncols X_data \<and> length (mh X_data) = ncols X_data
        \<and> (\<exists>ms. mhat_star mh X_data I = Inr ms) \<and> I \<noteq> [] \<and> length an = length I
        \<longrightarrow> (\<exists>c c'. fst (cvalue_SPUR1 rng mh X_data alpha an B s (Some I) w) = Inr c
              \<and> fst (cvalue_SPUR1 rng mh X_data alpha' an B s (Some I) w) = Inr c' \<and> c' \<le> c))"
proof -
  let ?cv = "\<lambda>a. fst (cvalue_SPUR1 rng mh X_data a an B s (Some I) w)"
  let ?q = "round_double (1 - round_double alpha)" and ?q' = "round_double (1 - round_double alpha')"
  have p0: "0 < alpha'" and p1: "alpha < 1" using assms by linarith+
  from level_range [OF a0 p1] have q0: "0 \<le> ?q" and q1: "?q \<le> 1" by blast+
  from level_range [OF p0 a1] have q0': "0 \<le> ?q'" and q1': "?q' \<le> 1" by blast+
  have qq: "?q' \<le> ?q" by (rule level_antitone) (use assms in simp_all)
  from cvalue_rows_shape [of mh X_data an I] obtain pre where
    pre: "\<And>a. ?cv a = (case pre of Inl e \<Rightarrow> Inl e
                        | Inr sn \<Rightarrow> np_quantile_midpoint sn
                                       (round_double (1 - round_double a)))"
    by (auto simp: cvalue_explicit)
  have main: "(\<exists>c c'. ?cv alpha = Inr c \<and> ?cv alpha' = Inr c' \<and> c' \<le> c)
              \<or> (\<exists>e. ?cv alpha = Inl e \<and> ?cv alpha' = Inl e)"
  proof (cases pre)
    case (Inl e)
    then show ?thesis by (simp add: pre)
  next
    case (Inr sn)
    show ?thesis
    proof (cases "sn = []")
      case True
      with Inr q0 q1 q0' q1' show ?thesis by (simp add: pre np_quantile_midpoint_def)
    next
      case False
      from quantile_antitone [OF False q0' qq q1] Inr show ?thesis by (simp add: pre)
    qed
  qed
  have valid: "\<exists>c c'. ?cv alpha = Inr c \<and> ?cv alpha' = Inr c' \<and> c' \<le> c"
    if v: "X_data \<noteq> [] \<and> 0 < ncols X_data \<and> length (mh X_data) = ncols X_data
        \<and> (\<exists>ms. mhat_star mh X_data I = Inr ms) \<and> I \<noteq> [] \<and> length an = length I"
  proof -
    from v obtain ms where ms: "mhat_star mh X_data I = Inr ms" by blast
    from v have X: "X_data \<noteq> []" and k: "0 < ncols X_data"
      and mh: "length (mh X_data) = ncols X_data" and I: "I \<noteq> []"
      and an: "length an = length I" by blast+
    from cvalue_rows_value [OF X k mh ms I an, of alpha] obtain tn where
      ltn: "length tn = length I"
      and cv: "cvalue_SPUR1_rows mh X_data alpha an I
             = np_quantile_midpoint
                 (map2 (\<lambda>row a. Max (set (map (\<lambda>t. neg_clip_below0 (ext_add t a)) row))) tn an)
                 (round_double (1 - round_double alpha))"
      by blast
    have "map2 (\<lambda>row a. Max (set (map (\<lambda>t. neg_clip_below0 (ext_add t a)) row))) tn an \<noteq> []"
      using ltn an I by (cases tn; cases an) auto
    from quantile_value [OF this q0 q1] cv
    have "\<exists>c. cvalue_SPUR1_rows mh X_data alpha an I = Inr c" by (simp only:) blast
    then obtain c where "?cv alpha = Inr c" by (auto simp only: cvalue_explicit)
    with main show ?thesis by auto
  qed
  from main valid show ?thesis by blast
qed

theorem cvalue_SPUR1_antitone_witness:
  "\<exists>c c'. fst (cvalue_SPUR1 counter_rng col_mean [[1, -1], [1, -3], [1, -1], [1, -3]] (1/4)
                 [Fin 0, Fin 0] None None (Some [[0, 0, 0, 0], [1, 1, 1, 1]])
                 \<lparr>gen = 0, used = []\<rparr>) = Inr c
     \<and> fst (cvalue_SPUR1 counter_rng col_mean [[1, -1], [1, -3], [1, -1], [1, -3]] (1/2)
                 [Fin 0, Fin 0] None None (Some [[0, 0, 0, 0], [1, 1, 1, 1]])
                 \<lparr>gen = 0, used = []\<rparr>) = Inr c'
     \<and> c' \<le> c"
proof -
  let ?X = "[[1, -1], [1, -3], [1, -1], [1, -3 :: real]]"
  let ?I = "[[0, 0, 0, 0], [1, 1, 1, 1 :: nat]]"
  have a: "(0::real) < 1/4" "(1/4::real) < 1/2" "(1/2::real) < 1" by simp_all
  have v: "?X \<noteq> [] \<and> 0 < ncols ?X \<and> length (col_mean ?X) = ncols ?X
           \<and> (\<exists>ms. mhat_star col_mean ?X ?I = Inr ms) \<and> ?I \<noteq> []
           \<and> length [Fin 0, Fin 0] = length ?I"
    using mhat_star_run by (simp add: ncols_def col_mean_four)
  from cvalue_SPUR1_antitone [OF a, THEN conjunct2, rule_format, OF v]
  show ?thesis .
qed

end
